theory Spec2Isabelle
  imports Main "HOL-Library.Sublist" "HOL-Library.Char_ord"
begin

section \<open>Python strings\<close>

text \<open>
  Strings are lists of characters; a character stands for a code point below 256.
  The helpers below are the \<^verbatim>\<open>str\<close> methods and operators that
  \<^verbatim>\<open>scripts/validate_package.py\<close> calls.
\<close>

definition in_range :: "char \<Rightarrow> char \<Rightarrow> char \<Rightarrow> bool" where
  "in_range lo hi c = (lo \<le> c \<and> c \<le> hi)"

definition ascii_lower :: "char \<Rightarrow> bool" where
  "ascii_lower c = in_range CHR ''a'' CHR ''z'' c"

definition ascii_upper :: "char \<Rightarrow> bool" where
  "ascii_upper c = in_range CHR ''A'' CHR ''Z'' c"

definition ascii_digit :: "char \<Rightarrow> bool" where
  "ascii_digit c = in_range CHR ''0'' CHR ''9'' c"

definition newline :: char where
  "newline = CHR 0x0A"

text \<open>\<^verbatim>\<open>str.isspace\<close> on one character, for code points below 256.\<close>

definition is_space :: "char \<Rightarrow> bool" where
  "is_space c = (in_range (CHR 0x09) (CHR 0x0D) c \<or> in_range (CHR 0x1C) (CHR 0x20) c
                 \<or> c = CHR 0x85 \<or> c = CHR 0xA0)"

text \<open>\<^verbatim>\<open>s.strip()\<close>: whitespace removed at both ends.\<close>

definition py_strip :: "string \<Rightarrow> string" where
  "py_strip s = rev (dropWhile is_space (rev (dropWhile is_space s)))"

text \<open>\<^verbatim>\<open>b.strip()\<close> on a bytes object: ASCII whitespace removed at both ends.\<close>

definition is_ascii_space :: "char \<Rightarrow> bool" where
  "is_ascii_space c = (in_range (CHR 0x09) (CHR 0x0D) c \<or> c = CHR 0x20)"

definition bytes_strip :: "string \<Rightarrow> string" where
  "bytes_strip b = rev (dropWhile is_ascii_space (rev (dropWhile is_ascii_space b)))"

text \<open>\<^verbatim>\<open>s.lstrip(chars)\<close>: every leading character that occurs in
  \<^verbatim>\<open>chars\<close> is removed.\<close>

definition py_lstrip :: "string \<Rightarrow> string \<Rightarrow> string" where
  "py_lstrip chars s = dropWhile (\<lambda>c. c \<in> set chars) s"

text \<open>\<^verbatim>\<open>sub in s\<close> on strings: a substring test.\<close>

fun str_contains :: "string \<Rightarrow> string \<Rightarrow> bool" where
  "str_contains sub [] = (sub = [])"
| "str_contains sub (c # cs) = (prefix sub (c # cs) \<or> str_contains sub cs)"

text \<open>\<^verbatim>\<open>s.split(sep, 1)\<close> for a one-character separator that occurs in
  \<^verbatim>\<open>s\<close>: the text before the first separator and the text after it.\<close>

definition split_first :: "char \<Rightarrow> string \<Rightarrow> string \<times> string" where
  "split_first sep s = (takeWhile (\<lambda>c. c \<noteq> sep) s, tl (dropWhile (\<lambda>c. c \<noteq> sep) s))"

text \<open>\<^verbatim>\<open>s.split(sep)\<close> for a one-character separator: all the pieces.\<close>

fun split_on :: "char \<Rightarrow> string \<Rightarrow> string list" where
  "split_on sep [] = [[]]"
| "split_on sep (c # cs) =
     (if c = sep then [] # split_on sep cs
      else (case split_on sep cs of
              [] \<Rightarrow> [[c]]
            | piece # pieces \<Rightarrow> (c # piece) # pieces))"

section \<open>Regular expressions\<close>

text \<open>
  The patterns of the validator (the e-mail pattern of \<^verbatim>\<open>_check_author_content\<close>)
  and of the \<^verbatim>\<open>semver\<close> library use character classes, concatenation,
  alternation and repetition only, so a match exists exactly when the subject is in the
  language of the pattern. Patterns are matched with Brzozowski derivatives.
\<close>

datatype rexp =
    RNone
  | REps
  | RAtom "char \<Rightarrow> bool"
  | RAlt rexp rexp
  | RSeq rexp rexp
  | RStar rexp

definition rplus :: "rexp \<Rightarrow> rexp" where
  "rplus r = RSeq r (RStar r)"

definition ropt :: "rexp \<Rightarrow> rexp" where
  "ropt r = RAlt r REps"

definition rchar :: "char \<Rightarrow> rexp" where
  "rchar c = RAtom (\<lambda>x. x = c)"

definition conc :: "string set \<Rightarrow> string set \<Rightarrow> string set" where
  "conc A B = {xs @ ys | xs ys. xs \<in> A \<and> ys \<in> B}"

inductive_set star :: "string set \<Rightarrow> string set" for A :: "string set" where
  star_nil: "[] \<in> star A"
| star_step: "xs \<in> A \<Longrightarrow> ys \<in> star A \<Longrightarrow> xs @ ys \<in> star A"

fun lang :: "rexp \<Rightarrow> string set" where
  "lang RNone = {}"
| "lang REps = {[]}"
| "lang (RAtom p) = {[c] | c. p c}"
| "lang (RAlt r s) = lang r \<union> lang s"
| "lang (RSeq r s) = conc (lang r) (lang s)"
| "lang (RStar r) = star (lang r)"

fun nullable :: "rexp \<Rightarrow> bool" where
  "nullable RNone = False"
| "nullable REps = True"
| "nullable (RAtom p) = False"
| "nullable (RAlt r s) = (nullable r \<or> nullable s)"
| "nullable (RSeq r s) = (nullable r \<and> nullable s)"
| "nullable (RStar r) = True"

fun deriv :: "char \<Rightarrow> rexp \<Rightarrow> rexp" where
  "deriv c RNone = RNone"
| "deriv c REps = RNone"
| "deriv c (RAtom p) = (if p c then REps else RNone)"
| "deriv c (RAlt r s) = RAlt (deriv c r) (deriv c s)"
| "deriv c (RSeq r s) =
     (if nullable r then RAlt (RSeq (deriv c r) s) (deriv c s) else RSeq (deriv c r) s)"
| "deriv c (RStar r) = RSeq (deriv c r) (RStar r)"

fun fullmatch :: "rexp \<Rightarrow> string \<Rightarrow> bool" where
  "fullmatch r [] = nullable r"
| "fullmatch r (c # cs) = fullmatch (deriv c r) cs"

text \<open>
  \<^verbatim>\<open>re.match("^...$", s)\<close> without flags: \<^verbatim>\<open>^\<close> is the start of the
  subject, and \<^verbatim>\<open>$\<close> is its end or the position just before a newline that is
  its last character.
\<close>

definition re_match_anchored :: "rexp \<Rightarrow> string \<Rightarrow> bool" where
  "re_match_anchored r s =
     (fullmatch r s \<or> (s \<noteq> [] \<and> last s = newline \<and> fullmatch r (butlast s)))"

section \<open>The metadata document\<close>

text \<open>
  What \<^verbatim>\<open>yaml.safe_load\<close> delivers: a tagged value. A mapping is an association
  list, looked up with \<^const>\<open>map_of\<close>. Binary data is a bytes object. Floats and
  dates are \<open>YOther\<close>, which keeps their truth value, the one thing the validator can
  observe of them besides their type. Sets (the tag \<^verbatim>\<open>!!set\<close>) are left out.
\<close>

datatype yaml =
    YNull
  | YBool bool
  | YInt int
  | YStr string
  | YList "yaml list"
  | YDict "(string \<times> yaml) list"
  | YBytes string
  | YOther bool

datatype py_type = TNoneType | TBool | TInt | TStr | TList | TDict | TBytes | TOther

fun type_of :: "yaml \<Rightarrow> py_type" where
  "type_of YNull = TNoneType"
| "type_of (YBool b) = TBool"
| "type_of (YInt i) = TInt"
| "type_of (YStr s) = TStr"
| "type_of (YList xs) = TList"
| "type_of (YDict d) = TDict"
| "type_of (YBytes b) = TBytes"
| "type_of (YOther b) = TOther"

text \<open>\<^verbatim>\<open>isinstance(v, t)\<close>; \<^verbatim>\<open>bool\<close> is a subclass of \<^verbatim>\<open>int\<close>.\<close>

definition isinstance :: "yaml \<Rightarrow> py_type \<Rightarrow> bool" where
  "isinstance v t = (type_of v = t \<or> (t = TInt \<and> type_of v = TBool))"

text \<open>The truth value of a value, as \<^verbatim>\<open>not v\<close> tests it.\<close>

fun truthy :: "yaml \<Rightarrow> bool" where
  "truthy YNull = False"
| "truthy (YBool b) = b"
| "truthy (YInt i) = (i \<noteq> 0)"
| "truthy (YStr s) = (s \<noteq> [])"
| "truthy (YList xs) = (xs \<noteq> [])"
| "truthy (YDict d) = (d \<noteq> [])"
| "truthy (YBytes b) = (b \<noteq> [])"
| "truthy (YOther b) = b"

section \<open>Failures\<close>

text \<open>
  Every \<^verbatim>\<open>raise\<close> of the validator is one failure kind. \<open>Runtime\<close> is an
  exception that the interpreter or a library raises on the validator's behalf.
  \<open>PackageExit\<close> is the \<^verbatim>\<open>SystemExit\<close> of a \<^verbatim>\<open>sys.exit\<close> call in code of the
  package that the import system runs.
\<close>

datatype py_exn =
    PyTypeError | PyAttributeError | PyImportError | PySyntaxError
  | PyValueError | PyFileNotFoundError | PyOSError | PyIndexError

datatype failure =
    MissingKey string
  | WrongType string py_type py_type
  | InvalidVersion
  | NameMismatch
  | EmptyField string
  | PlaceholderDetected
  | InvalidEmail
  | EmptyProvides
  | AssetsNotList
  | AssetNotDict
  | InvalidAsset
  | PathTraversal
  | AssetNotFound
  | MalformedRef
  | ModuleNotFound
  | AttributeNotFound
  | FileNotFound
  | ParseError
  | WrongShape
  | Runtime py_exn
  | PackageExit int

type_synonym 'a result = "failure + 'a"

section \<open>Schema validation\<close>

record rule =
  rtype :: py_type
  required :: bool

type_synonym schema = "(string \<times> rule) list"

definition SCHEMA :: schema where
  "SCHEMA =
     [(''name'', \<lparr>rtype = TStr, required = True\<rparr>),
      (''description'', \<lparr>rtype = TStr, required = True\<rparr>),
      (''author'', \<lparr>rtype = TDict, required = True\<rparr>),
      (''provides'', \<lparr>rtype = TDict, required = True\<rparr>)]"

definition AUTHOR_SCHEMA :: schema where
  "AUTHOR_SCHEMA =
     [(''name'', \<lparr>rtype = TStr, required = True\<rparr>),
      (''email'', \<lparr>rtype = TStr, required = True\<rparr>)]"

definition full_key :: "string \<Rightarrow> string \<Rightarrow> string" where
  "full_key parent_key key = (if parent_key \<noteq> [] then parent_key @ ''.'' @ key else key)"

text \<open>\<^verbatim>\<open>_validate_dict_schema\<close>: the loop over the schema's items, in their order.\<close>

fun validate_dict_schema :: "(string \<times> yaml) list \<Rightarrow> schema \<Rightarrow> string \<Rightarrow> unit result" where
  "validate_dict_schema data [] parent_key = Inr ()"
| "validate_dict_schema data ((key, rules) # rest) parent_key =
     (if required rules \<and> map_of data key = None
      then Inl (MissingKey (full_key parent_key key))
      else (case map_of data key of
              None \<Rightarrow> validate_dict_schema data rest parent_key
            | Some actual_value \<Rightarrow>
                if \<not> isinstance actual_value (rtype rules)
                then Inl (WrongType (full_key parent_key key) (rtype rules) (type_of actual_value))
                else validate_dict_schema data rest parent_key))"

text \<open>
  \<^verbatim>\<open>validate_schema\<close>. The second call validates \<^verbatim>\<open>data.get("author", {})\<close>;
  after the first call that value is a mapping, and the last branch stands for the
  interpreter's error on any other value.
\<close>

definition validate_schema :: "(string \<times> yaml) list \<Rightarrow> unit result" where
  "validate_schema data =
     (case validate_dict_schema data SCHEMA [] of
        Inl e \<Rightarrow> Inl e
      | Inr _ \<Rightarrow>
          (case map_of data ''author'' of
             None \<Rightarrow> validate_dict_schema [] AUTHOR_SCHEMA ''author''
           | Some (YDict author) \<Rightarrow> validate_dict_schema author AUTHOR_SCHEMA ''author''
           | Some _ \<Rightarrow> Inl (Runtime PyTypeError)))"

section \<open>Content checks\<close>

text \<open>\<^verbatim>\<open>_check_non_empty_str\<close>: \<^verbatim>\<open>not value or not value.strip()\<close>. Strings
  and bytes objects have \<^verbatim>\<open>strip\<close>; another value that is true has not.\<close>

definition check_non_empty_str :: "yaml \<Rightarrow> string \<Rightarrow> unit result" where
  "check_non_empty_str v key_name =
     (if \<not> truthy v then Inl (EmptyField key_name)
      else (case v of
              YStr s \<Rightarrow> if py_strip s = [] then Inl (EmptyField key_name) else Inr ()
            | YBytes b \<Rightarrow> if bytes_strip b = [] then Inl (EmptyField key_name) else Inr ()
            | _ \<Rightarrow> Inl (Runtime PyAttributeError)))"

text \<open>
  \<^verbatim>\<open>_check_tag\<close>. \<^verbatim>\<open>semver.VersionInfo.parse\<close> belongs to a library, so the check
  takes the parser as a parameter: \<open>parse s\<close> holds when the library accepts \<open>s\<close>.
  An absent tag (\<^verbatim>\<open>None\<close>) is \<open>None\<close>.
\<close>

definition check_tag :: "(string \<Rightarrow> bool) \<Rightarrow> string option \<Rightarrow> unit result" where
  "check_tag parse tag =
     (case tag of
        None \<Rightarrow> Inr ()
      | Some t \<Rightarrow>
          if t = [] then Inr ()
          else if parse (py_lstrip ''v'' t) then Inr ()
          else Inl InvalidVersion)"

text \<open>\<^verbatim>\<open>_check_package_name\<close>; \<^verbatim>\<open>metadata_name\<close> is \<^verbatim>\<open>data.get("name")\<close>.\<close>

definition check_package_name :: "yaml \<Rightarrow> string option \<Rightarrow> unit result" where
  "check_package_name metadata_name expected_name =
     (case expected_name of
        None \<Rightarrow> Inr ()
      | Some n \<Rightarrow>
          if n = [] then Inr ()
          else if metadata_name \<noteq> YStr n then Inl NameMismatch
          else Inr ())"

text \<open>The e-mail pattern of \<^verbatim>\<open>_check_author_content\<close>:
  \<^verbatim>\<open>^[a-zA-Z0-9_.+-]+@[a-zA-Z0-9-]+\.[a-zA-Z0-9-.]+$\<close>.\<close>

definition email_local :: "char \<Rightarrow> bool" where
  "email_local c = (ascii_lower c \<or> ascii_upper c \<or> ascii_digit c \<or> c \<in> set ''_.+-'')"

definition email_domain :: "char \<Rightarrow> bool" where
  "email_domain c = (ascii_lower c \<or> ascii_upper c \<or> ascii_digit c \<or> c = CHR ''-'')"

definition email_tld :: "char \<Rightarrow> bool" where
  "email_tld c = (ascii_lower c \<or> ascii_upper c \<or> ascii_digit c \<or> c \<in> set ''-.'')"

definition email_regex :: rexp where
  "email_regex =
     RSeq (rplus (RAtom email_local))
       (RSeq (rchar CHR ''@'')
         (RSeq (rplus (RAtom email_domain))
           (RSeq (rchar CHR ''.'') (rplus (RAtom email_tld)))))"

definition get_default :: "(string \<times> yaml) list \<Rightarrow> string \<Rightarrow> yaml \<Rightarrow> yaml" where
  "get_default d key dflt = (case map_of d key of None \<Rightarrow> dflt | Some v \<Rightarrow> v)"

text \<open>
  \<^verbatim>\<open>_check_author_content\<close>. Past the two non-empty checks \<^verbatim>\<open>name\<close> and
  \<^verbatim>\<open>email\<close> are strings; the last branches stand for the interpreter's error on
  any other value.
\<close>

definition check_author_content :: "(string \<times> yaml) list \<Rightarrow> unit result" where
  "check_author_content author_data =
     (let name = get_default author_data ''name'' (YStr []);
          email = get_default author_data ''email'' (YStr [])
      in case check_non_empty_str name ''author.name'' of
           Inl e \<Rightarrow> Inl e
         | Inr _ \<Rightarrow>
            (case check_non_empty_str email ''author.email'' of
               Inl e \<Rightarrow> Inl e
             | Inr _ \<Rightarrow>
                (case name of
                   YStr n \<Rightarrow>
                     if str_contains ''your-github-username'' n then Inl PlaceholderDetected
                     else (case email of
                             YStr m \<Rightarrow>
                               if \<not> re_match_anchored email_regex m then Inl InvalidEmail
                               else Inr ()
                           | _ \<Rightarrow> Inl (Runtime PyTypeError))
                 | _ \<Rightarrow> Inl (Runtime PyTypeError))))"

section \<open>Paths and the file system\<close>

text \<open>
  A path is the tuple that \<^verbatim>\<open>pathlib\<close> calls its \<^verbatim>\<open>parts\<close>, on a POSIX
  system: an absolute path starts with the part \<^verbatim>\<open>/\<close> (or \<^verbatim>\<open>//\<close>).
  \<open>path_parts\<close> is \<^verbatim>\<open>Path(s).parts\<close>: the text is cut at every slash, empty
  pieces and \<^verbatim>\<open>.\<close> pieces are dropped, \<^verbatim>\<open>..\<close> pieces are kept.
\<close>

type_synonym path = "string list"

definition path_root :: "string \<Rightarrow> path" where
  "path_root s =
     (if prefix ''//'' s \<and> \<not> prefix ''///'' s then [''//'']
      else if prefix ''/'' s then [''/'']
      else [])"

definition path_parts :: "string \<Rightarrow> path" where
  "path_parts s = path_root s @ filter (\<lambda>p. p \<noteq> [] \<and> p \<noteq> ''.'') (split_on CHR ''/'' s)"

definition is_absolute :: "path \<Rightarrow> bool" where
  "is_absolute p = (case p of [] \<Rightarrow> False | r # _ \<Rightarrow> r = ''/'' \<or> r = ''//'')"

text \<open>\<^verbatim>\<open>root_path / path_str\<close>: an absolute right operand replaces the left one.\<close>

definition path_join :: "path \<Rightarrow> path \<Rightarrow> path" where
  "path_join base p = (if is_absolute p then p else base @ p)"

text \<open>
  The file system is an association list from paths to nodes. A file is kept as what
  \<^verbatim>\<open>Path.read_text\<close> followed by \<^verbatim>\<open>ast.parse\<close> makes of it: the statements
  of a module, a syntax error, or text that cannot be decoded. A compiled module (an
  extension module or byte code) cannot be decoded either; it is kept with the statements
  whose effect its run has. Errors of the operating system other than the absence of a
  file (a name that is too long, a directory that may not be read) are not modelled.

  Two expression statements are kept apart for what they do when a module is run:
  \<^verbatim>\<open>sys.exit(code)\<close> and \<^verbatim>\<open>sys.path.insert(0, p)\<close>.
\<close>

datatype expr =
    Name string
  | Attribute expr string
  | Subscript expr
  | Starred expr
  | TupleExpr "expr list"
  | ListExpr "expr list"
  | OtherExpr

datatype stmt =
    FunctionDef string "stmt list"
  | AsyncFunctionDef string "stmt list"
  | ClassDef string "stmt list"
  | Assign "expr list" expr
  | AugAssign expr expr
  | AnnAssign expr expr
  | Compound "stmt list" "stmt list"
  | SysExitCall int
  | SysPathInsert "string list"
  | OtherStmt

datatype file_content = Module "stmt list" | Compiled "stmt list" | BadSyntax | BadEncoding

datatype node = File file_content | Dir

type_synonym filesystem = "(path \<times> node) list"

definition exists :: "filesystem \<Rightarrow> path \<Rightarrow> bool" where
  "exists fs p = (map_of fs p \<noteq> None)"

definition is_file :: "filesystem \<Rightarrow> path \<Rightarrow> bool" where
  "is_file fs p = (case map_of fs p of Some (File _) \<Rightarrow> True | _ \<Rightarrow> False)"

definition is_dir :: "filesystem \<Rightarrow> path \<Rightarrow> bool" where
  "is_dir fs p = (map_of fs p = Some Dir)"

section \<open>Assets\<close>

text \<open>\<^verbatim>\<open>_check_asset_path\<close>; \<^verbatim>\<open>path_str\<close> is \<^verbatim>\<open>asset_info.get("path")\<close>,
  any value of the document or \<^verbatim>\<open>None\<close>.\<close>

definition check_asset_path :: "filesystem \<Rightarrow> yaml \<Rightarrow> path \<Rightarrow> unit result" where
  "check_asset_path fs path_str root_path =
     (if \<not> truthy path_str \<or> \<not> isinstance path_str TStr then Inl InvalidAsset
      else (case path_str of
              YStr s \<Rightarrow>
                if ''..'' \<in> set (path_parts s) then Inl PathTraversal
                else if \<not> exists fs (path_join root_path (path_parts s)) then Inl AssetNotFound
                else Inr ()
            | _ \<Rightarrow> Inl InvalidAsset))"

section \<open>The import system\<close>

text \<open>
  \<^verbatim>\<open>_check_code_entry_point\<close> changes \<^verbatim>\<open>sys.path\<close> and calls
  \<^verbatim>\<open>importlib.util.find_spec\<close>, which reads \<^verbatim>\<open>sys.modules\<close> and, for a dotted
  name, imports the parent package. The interpreter state keeps these two variables and
  the list of files whose code has been run, next to two tables of the interpreter that
  never change: the specs with which the built-in and the frozen importer answer, and
  the file suffixes of extension modules.

  An entry of \<^verbatim>\<open>sys.modules\<close> is \<^verbatim>\<open>None\<close>, a module whose \<^verbatim>\<open>__spec__\<close> is
  \<^verbatim>\<open>None\<close>, or a module with its spec.
\<close>

record py_spec =
  origin :: "path option"
  submodule_search_locations :: "path list option"

datatype loaded = NoModule | NoSpec | Loaded py_spec

record interp =
  sys_path :: "path list"
  sys_modules :: "(string \<times> loaded) list"
  executed :: "path list"
  builtin_frozen :: "(string \<times> py_spec) list"
  extension_suffixes :: "string list"

text \<open>The suffixes of the file finder, in the order of its loaders: extension modules,
  source, byte code.\<close>

definition module_suffixes :: "interp \<Rightarrow> string list" where
  "module_suffixes st = extension_suffixes st @ [''.py'', ''.pyc'']"

fun first_file :: "filesystem \<Rightarrow> path list \<Rightarrow> path option" where
  "first_file fs [] = None"
| "first_file fs (p # ps) = (if is_file fs p then Some p else first_file fs ps)"

text \<open>
  The path-based finder: in each entry of the search path, a directory with an
  \<^verbatim>\<open>__init__\<close> file of one of the suffixes is a package, a file of the name with one of
  the suffixes is a module, and a bare directory is a portion of a namespace package,
  which is returned (without origin) only when no later entry has a package or module.
\<close>

fun path_finder ::
  "filesystem \<Rightarrow> string list \<Rightarrow> path list \<Rightarrow> string \<Rightarrow> path list \<Rightarrow> py_spec option" where
  "path_finder fs sfxs [] name portions =
     (if portions = [] then None
      else Some \<lparr>origin = None, submodule_search_locations = Some portions\<rparr>)"
| "path_finder fs sfxs (entry # entries) name portions =
     (case first_file fs (map (\<lambda>sfx. entry @ [name, ''__init__'' @ sfx]) sfxs) of
        Some init_file \<Rightarrow>
          Some \<lparr>origin = Some init_file, submodule_search_locations = Some [entry @ [name]]\<rparr>
      | None \<Rightarrow>
          (case first_file fs (map (\<lambda>sfx. entry @ [name @ sfx]) sfxs) of
             Some module_file \<Rightarrow>
               Some \<lparr>origin = Some module_file, submodule_search_locations = None\<rparr>
           | None \<Rightarrow>
               if is_dir fs (entry @ [name])
               then path_finder fs sfxs entries name (portions @ [entry @ [name]])
               else path_finder fs sfxs entries name portions))"

text \<open>
  The finders of the default \<^verbatim>\<open>sys.meta_path\<close> in their order: the built-in and the
  frozen importer, which go by the full name, then the path-based finder, which looks
  for the last component of the name in the search path it is given. Finders that a
  site adds to the meta path are not modelled.
\<close>

definition meta_path_find ::
  "filesystem \<Rightarrow> interp \<Rightarrow> string \<Rightarrow> path list \<Rightarrow> string \<Rightarrow> py_spec option" where
  "meta_path_find fs st fullname search tail_module =
     (case map_of (builtin_frozen st) fullname of
        Some sp \<Rightarrow> Some sp
      | None \<Rightarrow> path_finder fs (module_suffixes st) search tail_module [])"

text \<open>
  Running the code of a module, statement by statement. \<^verbatim>\<open>sys.exit\<close> ends the run
  with \<^verbatim>\<open>SystemExit\<close>; \<^verbatim>\<open>sys.path.insert(0, p)\<close> changes the search path; the body
  of a class is run where the class is defined. Of the other statements the model does
  not follow the effect.
\<close>

fun run_body :: "stmt list \<Rightarrow> interp \<Rightarrow> failure option \<times> interp" where
  "run_body [] st = (None, st)"
| "run_body (SysExitCall code # rest) st = (Some (PackageExit code), st)"
| "run_body (SysPathInsert p # rest) st = run_body rest (st\<lparr>sys_path := p # sys_path st\<rparr>)"
| "run_body (ClassDef name body # rest) st =
     (case run_body body st of
        (Some e, st') \<Rightarrow> (Some e, st')
      | (None, st') \<Rightarrow> run_body rest st')"
| "run_body (_ # rest) st = run_body rest st"

text \<open>The code that the loader of a file runs: the source loader is the one of the
  suffix \<^verbatim>\<open>.py\<close> and compiles the text; the other loaders take compiled code.\<close>

definition code_of :: "path \<Rightarrow> file_content \<Rightarrow> stmt list result" where
  "code_of file content =
     (if (case rev file of [] \<Rightarrow> False | base # _ \<Rightarrow> suffix ''.py'' base)
      then (case content of
              Module body \<Rightarrow> Inr body
            | _ \<Rightarrow> Inl (Runtime PySyntaxError))
      else (case content of
              Compiled body \<Rightarrow> Inr body
            | _ \<Rightarrow> Inl (Runtime PyImportError)))"

text \<open>
  Loading a found module: it enters \<^verbatim>\<open>sys.modules\<close> and the code of its file, if it
  has one, is run. A built-in or frozen module and a namespace package have no file of
  the package to run. When the run fails the module leaves \<^verbatim>\<open>sys.modules\<close> again;
  what the code did before stays.
\<close>

definition load_module ::
  "filesystem \<Rightarrow> interp \<Rightarrow> string \<Rightarrow> py_spec \<Rightarrow> unit result \<times> interp" where
  "load_module fs st fullname sp =
     (let registered = st\<lparr>sys_modules := (fullname, Loaded sp) # sys_modules st\<rparr> in
      if map_of (builtin_frozen st) fullname \<noteq> None then (Inr (), registered)
      else (case origin sp of
              None \<Rightarrow> (Inr (), registered)
            | Some file \<Rightarrow>
                (case map_of fs file of
                   Some (File content) \<Rightarrow>
                     (case code_of file content of
                        Inl e \<Rightarrow> (Inl e, st)
                      | Inr body \<Rightarrow>
                          (case run_body body (registered\<lparr>executed := executed st @ [file]\<rparr>) of
                             (None, st') \<Rightarrow> (Inr (), st')
                           | (Some e, st') \<Rightarrow> (Inl e, st'\<lparr>sys_modules := sys_modules st\<rparr>)))
                 | _ \<Rightarrow> (Inl (Runtime PyImportError), st))))"

text \<open>
  \<^verbatim>\<open>__import__(parent_name)\<close>: the components of the dotted name are imported from
  the left. \<open>cur\<close> is the name imported so far, \<open>search\<close> the \<^verbatim>\<open>__path__\<close> of that
  module (\<^verbatim>\<open>sys.path\<close> at the top; \<open>None\<close> when the module is no package). The
  result is the \<^verbatim>\<open>__path__\<close> of the last module. The state is returned in every
  case: the modules loaded before a failure stay loaded. The parents of a loaded module
  are taken to be loaded too, as the import system leaves them, and a module without
  spec is taken to be no package.
\<close>

fun import_chain ::
  "filesystem \<Rightarrow> interp \<Rightarrow> string \<Rightarrow> path list option \<Rightarrow> string list
     \<Rightarrow> path list option result \<times> interp" where
  "import_chain fs st cur search [] = (Inr search, st)"
| "import_chain fs st cur search (c # cs) =
     (let fullname = (if cur = [] then c else cur @ ''.'' @ c) in
      case map_of (sys_modules st) fullname of
        Some NoModule \<Rightarrow> (Inl (Runtime PyImportError), st)
      | Some NoSpec \<Rightarrow> (Inl (Runtime PyImportError), st)
      | Some (Loaded sp) \<Rightarrow> import_chain fs st fullname (submodule_search_locations sp) cs
      | None \<Rightarrow>
          (case search of
             None \<Rightarrow> (Inl (Runtime PyImportError), st)
           | Some locations \<Rightarrow>
               (case meta_path_find fs st fullname locations c of
                  None \<Rightarrow> (Inl (Runtime PyImportError), st)
                | Some sp \<Rightarrow>
                    (case load_module fs st fullname sp of
                       (Inl e, st') \<Rightarrow> (Inl e, st')
                     | (Inr _, st') \<Rightarrow>
                         import_chain fs st' fullname (submodule_search_locations sp) cs))))"

text \<open>
  \<^verbatim>\<open>importlib.util.find_spec(name)\<close>: a relative name has no package to start from;
  a name that is in \<^verbatim>\<open>sys.modules\<close> answers with the spec of its module (with
  nothing when the entry is \<^verbatim>\<open>None\<close>, with a value error when the module has no
  spec); for a dotted name the parent is imported and the name is searched with the
  parent's \<^verbatim>\<open>__path__\<close>; any other name is searched with \<^verbatim>\<open>sys.path\<close>.
\<close>

definition find_spec :: "filesystem \<Rightarrow> interp \<Rightarrow> string \<Rightarrow> py_spec option result \<times> interp" where
  "find_spec fs st name =
     (if prefix ''.'' name then (Inl (Runtime PyImportError), st)
      else (case map_of (sys_modules st) name of
              Some NoModule \<Rightarrow> (Inr None, st)
            | Some NoSpec \<Rightarrow> (Inl (Runtime PyValueError), st)
            | Some (Loaded sp) \<Rightarrow> (Inr (Some sp), st)
            | None \<Rightarrow>
                (let comps = split_on CHR ''.'' name in
                 if length comps \<le> 1
                 then (Inr (meta_path_find fs st name (sys_path st) name), st)
                 else (case import_chain fs st [] (Some (sys_path st)) (butlast comps) of
                         (Inl e, st') \<Rightarrow> (Inl e, st')
                       | (Inr None, st') \<Rightarrow> (Inl (Runtime PyImportError), st')
                       | (Inr (Some parent_path), st') \<Rightarrow>
                           (Inr (meta_path_find fs st' name parent_path (last comps)), st')))))"

section \<open>Entry points\<close>

text \<open>The inner loop of \<^verbatim>\<open>_check_code_entry_point\<close>, over the targets of an assignment.\<close>

fun scan_targets :: "expr list \<Rightarrow> string \<Rightarrow> bool" where
  "scan_targets [] attr_name = False"
| "scan_targets (target # targets) attr_name =
     (case target of
        Name ident \<Rightarrow> if ident = attr_name then True else scan_targets targets attr_name
      | _ \<Rightarrow> scan_targets targets attr_name)"

text \<open>The loop over \<^verbatim>\<open>tree.body\<close>: \<open>True\<close> when the function returns from inside the
  loop, \<open>False\<close> when the loop ends.\<close>

fun scan_body :: "stmt list \<Rightarrow> string \<Rightarrow> bool" where
  "scan_body [] attr_name = False"
| "scan_body (FunctionDef name body # rest) attr_name =
     (if name = attr_name then True else scan_body rest attr_name)"
| "scan_body (ClassDef name body # rest) attr_name =
     (if name = attr_name then True else scan_body rest attr_name)"
| "scan_body (Assign targets val # rest) attr_name =
     (if scan_targets targets attr_name then True else scan_body rest attr_name)"
| "scan_body (_ # rest) attr_name = scan_body rest attr_name"

text \<open>
  The body of the \<^verbatim>\<open>try\<close> statement, from \<^verbatim>\<open>find_spec\<close> to the final
  \<^verbatim>\<open>raise NameError\<close>. \<^verbatim>\<open>importlib.util.find_spec\<close> belongs to the library and
  is a parameter here: \<open>finder st name\<close> is what the call returns or raises in the
  interpreter state \<open>st\<close>, with the state it leaves. The origin of the spec is then
  read as a text file, whatever it is: a compiled module does not decode as text, the
  origin of a built-in or frozen module is no file, and a directory cannot be read.
\<close>

type_synonym finder = "interp \<Rightarrow> string \<Rightarrow> py_spec option result \<times> interp"

definition resolve_and_scan_with ::
  "finder \<Rightarrow> filesystem \<Rightarrow> interp \<Rightarrow> string \<Rightarrow> string \<Rightarrow> unit result \<times> interp" where
  "resolve_and_scan_with finder fs st module_name attr_name =
     (case finder st module_name of
        (Inl e, st') \<Rightarrow> (Inl e, st')
      | (Inr None, st') \<Rightarrow> (Inl ModuleNotFound, st')
      | (Inr (Some sp), st') \<Rightarrow>
          (case origin sp of
             None \<Rightarrow> (Inl ModuleNotFound, st')
           | Some module_path \<Rightarrow>
               (case map_of fs module_path of
                  Some (File (Module body)) \<Rightarrow>
                    (if scan_body body attr_name then (Inr (), st')
                     else (Inl AttributeNotFound, st'))
                | Some (File BadSyntax) \<Rightarrow> (Inl (Runtime PySyntaxError), st')
                | Some (File BadEncoding) \<Rightarrow> (Inl (Runtime PyValueError), st')
                | Some (File (Compiled code)) \<Rightarrow> (Inl (Runtime PyValueError), st')
                | Some Dir \<Rightarrow> (Inl (Runtime PyOSError), st')
                | None \<Rightarrow> (Inl (Runtime PyFileNotFoundError), st'))))"

text \<open>
  \<^verbatim>\<open>_check_code_entry_point\<close> on a string: \<^verbatim>\<open>sys.path.insert(0, str(root_path))\<close>,
  the \<^verbatim>\<open>try\<close> body, and \<^verbatim>\<open>sys.path.pop(0)\<close> in the \<^verbatim>\<open>finally\<close> clause,
  which raises an index error of its own on an empty list.
\<close>

definition check_code_entry_point_with ::
  "finder \<Rightarrow> filesystem \<Rightarrow> interp \<Rightarrow> string \<Rightarrow> path \<Rightarrow> unit result \<times> interp" where
  "check_code_entry_point_with finder fs st entry_point root_path =
     (if CHR '':'' \<notin> set entry_point then (Inl MalformedRef, st)
      else (let (module_name, attr_name) = split_first CHR '':'' entry_point;
                st1 = st\<lparr>sys_path := root_path # sys_path st\<rparr>;
                (r, st2) = resolve_and_scan_with finder fs st1 module_name attr_name
            in case sys_path st2 of
                 [] \<Rightarrow> (Inl (Runtime PyIndexError), st2)
               | _ # rest \<Rightarrow> (r, st2\<lparr>sys_path := rest\<rparr>)))"

text \<open>The two functions with the model of the import system for the library.\<close>

definition resolve_and_scan ::
  "filesystem \<Rightarrow> interp \<Rightarrow> string \<Rightarrow> string \<Rightarrow> unit result \<times> interp" where
  "resolve_and_scan fs st module_name attr_name =
     resolve_and_scan_with (find_spec fs) fs st module_name attr_name"

definition check_code_entry_point ::
  "filesystem \<Rightarrow> interp \<Rightarrow> string \<Rightarrow> path \<Rightarrow> unit result \<times> interp" where
  "check_code_entry_point fs st entry_point root_path =
     check_code_entry_point_with (find_spec fs) fs st entry_point root_path"

text \<open>
  The same function on any value of the document, as \<^verbatim>\<open>_check_provides\<close> calls it:
  \<^verbatim>\<open>":" not in entry_point\<close> is a membership test on a list or a mapping and a type
  error on a scalar, and only a string has \<^verbatim>\<open>split\<close>.
\<close>

definition check_code_entry_point_value ::
  "filesystem \<Rightarrow> interp \<Rightarrow> yaml \<Rightarrow> path \<Rightarrow> unit result \<times> interp" where
  "check_code_entry_point_value fs st v root_path =
     (case v of
        YStr entry_point \<Rightarrow> check_code_entry_point fs st entry_point root_path
      | YList xs \<Rightarrow>
          if YStr '':'' \<notin> set xs then (Inl MalformedRef, st)
          else (Inl (Runtime PyAttributeError), st)
      | YDict d \<Rightarrow>
          if map_of d '':'' = None then (Inl MalformedRef, st)
          else (Inl (Runtime PyAttributeError), st)
      | _ \<Rightarrow> (Inl (Runtime PyTypeError), st))"

section \<open>The provides section and the content checks\<close>

text \<open>The loop of \<^verbatim>\<open>_check_provides\<close> over the asset entries.\<close>

fun check_assets :: "filesystem \<Rightarrow> yaml list \<Rightarrow> path \<Rightarrow> unit result" where
  "check_assets fs [] root_path = Inr ()"
| "check_assets fs (asset_info # rest) root_path =
     (case asset_info of
        YDict d \<Rightarrow>
          (case check_asset_path fs (get_default d ''path'' YNull) root_path of
             Inl e \<Rightarrow> Inl e
           | Inr _ \<Rightarrow> check_assets fs rest root_path)
      | _ \<Rightarrow> Inl AssetNotDict)"

definition has_key :: "(string \<times> yaml) list \<Rightarrow> string \<Rightarrow> bool" where
  "has_key d key = (map_of d key \<noteq> None)"

text \<open>\<^verbatim>\<open>_check_provides\<close> on a mapping.\<close>

definition check_provides ::
  "filesystem \<Rightarrow> interp \<Rightarrow> (string \<times> yaml) list \<Rightarrow> path \<Rightarrow> unit result \<times> interp" where
  "check_provides fs st provides_data root_path =
     (if provides_data = [] \<or> \<not> (has_key provides_data ''code'' \<or> has_key provides_data ''assets'')
      then (Inl EmptyProvides, st)
      else (case (case map_of provides_data ''assets'' of
                    None \<Rightarrow> Inr ()
                  | Some (YList assets) \<Rightarrow> check_assets fs assets root_path
                  | Some _ \<Rightarrow> Inl AssetsNotList) of
              Inl e \<Rightarrow> (Inl e, st)
            | Inr _ \<Rightarrow>
                (case map_of provides_data ''code'' of
                   None \<Rightarrow> (Inr (), st)
                 | Some v \<Rightarrow> check_code_entry_point_value fs st v root_path)))"

text \<open>
  The last two calls of \<^verbatim>\<open>validate_content\<close>:
  \<^verbatim>\<open>_check_author_content(data.get("author", {}))\<close> and
  \<^verbatim>\<open>_check_provides(data.get("provides", {}), root_path)\<close>. After
  \<^verbatim>\<open>validate_schema\<close> both values are mappings. A value that is no mapping has no
  \<^verbatim>\<open>get\<close> in the first call; in the second it runs into the first test of
  \<^verbatim>\<open>_check_provides\<close>, where \<^verbatim>\<open>in\<close> is a substring test on a string, a
  membership test on a list and a type error on another scalar, and into a type error
  at the subscript that follows when the test finds a key.
\<close>

definition author_step :: "(string \<times> yaml) list \<Rightarrow> unit result" where
  "author_step data =
     (case get_default data ''author'' (YDict []) of
        YDict author \<Rightarrow> check_author_content author
      | _ \<Rightarrow> Inl (Runtime PyAttributeError))"

definition provides_step ::
  "filesystem \<Rightarrow> interp \<Rightarrow> (string \<times> yaml) list \<Rightarrow> path \<Rightarrow> unit result \<times> interp" where
  "provides_step fs st data root_path =
     (case get_default data ''provides'' (YDict []) of
        YDict provides \<Rightarrow> check_provides fs st provides root_path
      | YStr s \<Rightarrow>
          if s = [] \<or> \<not> (str_contains ''code'' s \<or> str_contains ''assets'' s)
          then (Inl EmptyProvides, st)
          else (Inl (Runtime PyTypeError), st)
      | YList xs \<Rightarrow>
          if xs = [] \<or> \<not> (YStr ''code'' \<in> set xs \<or> YStr ''assets'' \<in> set xs)
          then (Inl EmptyProvides, st)
          else (Inl (Runtime PyTypeError), st)
      | v \<Rightarrow>
          if \<not> truthy v then (Inl EmptyProvides, st)
          else (Inl (Runtime PyTypeError), st))"

text \<open>\<^verbatim>\<open>validate_content\<close>: the six calls in their order; the first failure ends it.\<close>

definition validate_content ::
  "(string \<Rightarrow> bool) \<Rightarrow> filesystem \<Rightarrow> interp \<Rightarrow> (string \<times> yaml) list \<Rightarrow> path
     \<Rightarrow> string option \<Rightarrow> string option \<Rightarrow> unit result \<times> interp" where
  "validate_content parse fs st data root_path tag name =
     (case check_tag parse tag of
        Inl e \<Rightarrow> (Inl e, st)
      | Inr _ \<Rightarrow>
     (case check_package_name (get_default data ''name'' YNull) name of
        Inl e \<Rightarrow> (Inl e, st)
      | Inr _ \<Rightarrow>
     (case check_non_empty_str (get_default data ''name'' YNull) ''name'' of
        Inl e \<Rightarrow> (Inl e, st)
      | Inr _ \<Rightarrow>
     (case check_non_empty_str (get_default data ''description'' YNull) ''description'' of
        Inl e \<Rightarrow> (Inl e, st)
      | Inr _ \<Rightarrow>
     (case author_step data of
        Inl e \<Rightarrow> (Inl e, st)
      | Inr _ \<Rightarrow> provides_step fs st data root_path)))))"

section \<open>The pipeline\<close>

text \<open>
  The metadata file as \<^verbatim>\<open>_load_metadata\<close> finds it: absent, present but not
  readable, not parsable as YAML, or a document.
\<close>

datatype metadata_file = Absent | Unreadable | Malformed | Document yaml

definition load_metadata :: "metadata_file \<Rightarrow> yaml result" where
  "load_metadata f =
     (case f of
        Absent \<Rightarrow> Inl FileNotFound
      | Unreadable \<Rightarrow> Inl (Runtime PyOSError)
      | Malformed \<Rightarrow> Inl ParseError
      | Document doc \<Rightarrow> Inr doc)"

text \<open>The \<^verbatim>\<open>try\<close> body of \<^verbatim>\<open>main\<close>.\<close>

definition run_pipeline ::
  "(string \<Rightarrow> bool) \<Rightarrow> filesystem \<Rightarrow> interp \<Rightarrow> metadata_file \<Rightarrow> path
     \<Rightarrow> string option \<Rightarrow> string option \<Rightarrow> unit result \<times> interp" where
  "run_pipeline parse fs st f root_path tag name =
     (case load_metadata f of
        Inl e \<Rightarrow> (Inl e, st)
      | Inr metadata \<Rightarrow>
          (case metadata of
             YDict data \<Rightarrow>
               (case validate_schema data of
                  Inl e \<Rightarrow> (Inl e, st)
                | Inr _ \<Rightarrow> validate_content parse fs st data root_path tag name)
           | _ \<Rightarrow> (Inl WrongShape, st)))"

text \<open>
  The exception class of each failure, which selects the \<^verbatim>\<open>except\<close> clause of
  \<^verbatim>\<open>main\<close>. A missing metadata file is \<^verbatim>\<open>sys.exit(1)\<close>, which no clause
  catches and which ends the process with its own code, as does the \<^verbatim>\<open>sys.exit\<close>
  of package code. The exceptions of the
  interpreter other than type and value errors reach the last clause at the latest.
\<close>

datatype py_class =
    ValueError | TypeError | FileNotFoundError | NameError | YAMLError
  | SystemExit int | OtherException

fun raised_as :: "failure \<Rightarrow> py_class" where
  "raised_as (MissingKey k) = ValueError"
| "raised_as (WrongType k t u) = TypeError"
| "raised_as InvalidVersion = ValueError"
| "raised_as NameMismatch = ValueError"
| "raised_as (EmptyField k) = ValueError"
| "raised_as PlaceholderDetected = ValueError"
| "raised_as InvalidEmail = ValueError"
| "raised_as EmptyProvides = ValueError"
| "raised_as AssetsNotList = TypeError"
| "raised_as AssetNotDict = TypeError"
| "raised_as InvalidAsset = ValueError"
| "raised_as PathTraversal = ValueError"
| "raised_as AssetNotFound = FileNotFoundError"
| "raised_as MalformedRef = ValueError"
| "raised_as ModuleNotFound = FileNotFoundError"
| "raised_as AttributeNotFound = NameError"
| "raised_as FileNotFound = SystemExit 1"
| "raised_as ParseError = YAMLError"
| "raised_as WrongShape = TypeError"
| "raised_as (Runtime PyTypeError) = TypeError"
| "raised_as (Runtime PyValueError) = ValueError"
| "raised_as (Runtime PyFileNotFoundError) = FileNotFoundError"
| "raised_as (Runtime _) = OtherException"
| "raised_as (PackageExit code) = SystemExit code"

text \<open>The exit code of the process, \<^verbatim>\<open>sys.exit(main())\<close>.\<close>

definition main ::
  "(string \<Rightarrow> bool) \<Rightarrow> filesystem \<Rightarrow> interp \<Rightarrow> metadata_file \<Rightarrow> path
     \<Rightarrow> string option \<Rightarrow> string option \<Rightarrow> int" where
  "main parse fs st f root_path tag name =
     (case fst (run_pipeline parse fs st f root_path tag name) of
        Inr _ \<Rightarrow> 0
      | Inl e \<Rightarrow>
          (case raised_as e of
             SystemExit code \<Rightarrow> code
           | ValueError \<Rightarrow> 1
           | TypeError \<Rightarrow> 1
           | FileNotFoundError \<Rightarrow> 1
           | NameError \<Rightarrow> 1
           | YAMLError \<Rightarrow> 1
           | OtherException \<Rightarrow> 1))"

section \<open>The semver library\<close>

text \<open>
  \<^verbatim>\<open>semver.VersionInfo.parse\<close> matches the string with the library's pattern,
  \<^verbatim>\<open>(0|[1-9]\d*)\.(0|[1-9]\d*)\.(0|[1-9]\d*)\<close>, then an optional pre-release
  \<^verbatim>\<open>-ID(\.ID)*\<close> with \<^verbatim>\<open>ID = 0|[1-9]\d*|\d*[a-zA-Z-][0-9a-zA-Z-]*\<close>, then an
  optional build \<^verbatim>\<open>\+[0-9a-zA-Z-]+(\.[0-9a-zA-Z-]+)*\<close>, and converts the three
  numbers with \<^verbatim>\<open>int\<close>, which raises a value error on more digits than the
  interpreter's limit for the conversion (4300 by default). The model follows the
  library at version 3.1, where the pattern has to match the whole string.
\<close>

definition nonzero_digit :: "char \<Rightarrow> bool" where
  "nonzero_digit c = in_range CHR ''1'' CHR ''9'' c"

definition letter_or_hyphen :: "char \<Rightarrow> bool" where
  "letter_or_hyphen c = (ascii_lower c \<or> ascii_upper c \<or> c = CHR ''-'')"

definition alnum_or_hyphen :: "char \<Rightarrow> bool" where
  "alnum_or_hyphen c = (ascii_digit c \<or> ascii_lower c \<or> ascii_upper c \<or> c = CHR ''-'')"

definition numeric_id :: rexp where
  "numeric_id = RAlt (rchar CHR ''0'') (RSeq (RAtom nonzero_digit) (RStar (RAtom ascii_digit)))"

definition prerelease_id :: rexp where
  "prerelease_id =
     RAlt numeric_id
       (RSeq (RStar (RAtom ascii_digit))
          (RSeq (RAtom letter_or_hyphen) (RStar (RAtom alnum_or_hyphen))))"

definition dotted :: "rexp \<Rightarrow> rexp" where
  "dotted r = RSeq r (RStar (RSeq (rchar CHR ''.'') r))"

definition semver_regex :: rexp where
  "semver_regex =
     RSeq numeric_id
       (RSeq (rchar CHR ''.'')
         (RSeq numeric_id
           (RSeq (rchar CHR ''.'')
             (RSeq numeric_id
               (RSeq (ropt (RSeq (rchar CHR ''-'') (dotted prerelease_id)))
                     (ropt (RSeq (rchar CHR ''+'') (dotted (rplus (RAtom alnum_or_hyphen))))))))))"

definition max_str_digits :: nat where
  "max_str_digits = 4300"

text \<open>The three numbers of a string that the pattern matches.\<close>

definition core_fields :: "string \<Rightarrow> string list" where
  "core_fields s =
     (let (major, after_major) = split_first CHR ''.'' s;
          (minor, after_minor) = split_first CHR ''.'' after_major
      in [major, minor, takeWhile ascii_digit after_minor])"

definition semver_parse :: "string \<Rightarrow> bool" where
  "semver_parse s =
     (fullmatch semver_regex s
      \<and> list_all (\<lambda>field. length field \<le> max_str_digits) (core_fields s))"

section \<open>Notions of the specification\<close>

text \<open>
  The e-mail shape in the specification's words: one or more characters of
  \<^verbatim>\<open>[A-Za-z0-9_.+-]\<close>, an \<^verbatim>\<open>@\<close>, one or more of \<^verbatim>\<open>[A-Za-z0-9-]\<close>, a dot,
  one or more of \<^verbatim>\<open>[A-Za-z0-9-.]\<close>.
\<close>

definition email_shape :: "string \<Rightarrow> bool" where
  "email_shape s =
     (\<exists>l d t. s = l @ ''@'' @ d @ ''.'' @ t
        \<and> l \<noteq> [] \<and> list_all email_local l
        \<and> d \<noteq> [] \<and> list_all email_domain d
        \<and> t \<noteq> [] \<and> list_all email_tld t)"

text \<open>
  A document extends another with undeclared keys: every key of the old document keeps
  its value, and every new key is absent from the schema.
\<close>

definition extends_undeclared ::
  "(string \<times> yaml) list \<Rightarrow> (string \<times> yaml) list \<Rightarrow> schema \<Rightarrow> bool" where
  "extends_undeclared data' data schema =
     ((\<forall>k \<in> set (map fst data). map_of data' k = map_of data k)
      \<and> (\<forall>k \<in> set (map fst data'). k \<in> set (map fst data) \<or> k \<notin> set (map fst schema)))"

text \<open>The document of the specification's end-to-end scenario.\<close>

definition example_document :: "(string \<times> yaml) list" where
  "example_document =
     [(''name'', YStr ''pkg''), (''description'', YStr ''d''),
      (''author'', YDict [(''name'', YStr ''A''), (''email'', YStr ''a@b.com'')]),
      (''provides'', YDict [(''code'', YStr ''m:f'')])]"

text \<open>
  A statement defines a name at the top level of a module: it is a function definition
  or a class definition of that name, or an assignment one of whose targets is the bare
  name.
\<close>

definition stmt_defines :: "stmt \<Rightarrow> string \<Rightarrow> bool" where
  "stmt_defines s attr_name =
     (case s of
        FunctionDef name body \<Rightarrow> name = attr_name
      | ClassDef name body \<Rightarrow> name = attr_name
      | Assign targets val \<Rightarrow> Name attr_name \<in> set targets
      | _ \<Rightarrow> False)"

definition top_level_defines :: "stmt list \<Rightarrow> string \<Rightarrow> bool" where
  "top_level_defines body attr_name = list_ex (\<lambda>s. stmt_defines s attr_name) body"

text \<open>A search-path entry holds a source file for a module name: the package's
  \<^verbatim>\<open>__init__.py\<close> or the module's \<^verbatim>\<open>.py\<close> file.\<close>

definition source_file_in :: "filesystem \<Rightarrow> path \<Rightarrow> string \<Rightarrow> bool" where
  "source_file_in fs entry name =
     (is_file fs (entry @ [name, ''__init__.py'']) \<or> is_file fs (entry @ [name @ ''.py'']))"

text \<open>A search-path entry holds a file for a module name with one of the given suffixes:
  the package's \<^verbatim>\<open>__init__\<close> file or the module's file.\<close>

definition module_file_in :: "filesystem \<Rightarrow> string list \<Rightarrow> path \<Rightarrow> string \<Rightarrow> bool" where
  "module_file_in fs sfxs entry name =
     list_ex (\<lambda>sfx. is_file fs (entry @ [name, ''__init__'' @ sfx])
                     \<or> is_file fs (entry @ [name @ sfx])) sfxs"

text \<open>The state after \<^verbatim>\<open>sys.path.insert(0, str(root_path))\<close>.\<close>

definition with_root :: "interp \<Rightarrow> path \<Rightarrow> interp" where
  "with_root st root_path = st\<lparr>sys_path := root_path # sys_path st\<rparr>"

text \<open>The tag with one leading \<^verbatim>\<open>v\<close> removed, in the specification's words.\<close>

definition strip_leading_v :: "string \<Rightarrow> string" where
  "strip_leading_v t = (case t of [] \<Rightarrow> [] | c # rest \<Rightarrow> if c = CHR ''v'' then rest else t)"

text \<open>
  An example installation: the package root holds a module \<^verbatim>\<open>m\<close>, a package
  \<^verbatim>\<open>sub\<close> with a module \<^verbatim>\<open>mod\<close>, and an asset; the interpreter's search path
  holds the standard library, with the module \<^verbatim>\<open>colorsys\<close>.
\<close>

definition example_root :: path where
  "example_root = [''/'', ''work'', ''pkg'']"

definition example_module :: "stmt list" where
  "example_module =
     [FunctionDef ''f'' [OtherStmt],
      Assign [Name ''VERSION''] OtherExpr,
      FunctionDef ''outer'' [FunctionDef ''thing'' [OtherStmt]],
      ClassDef ''Tool'' [FunctionDef ''run'' [OtherStmt], Assign [Name ''thing''] OtherExpr],
      Compound [Assign [Name ''thing''] OtherExpr] [],
      AsyncFunctionDef ''fetch'' [OtherStmt],
      AnnAssign (Name ''limit'') OtherExpr,
      Assign [TupleExpr [Name ''left'', Name ''right'']] OtherExpr]"

definition example_fs :: filesystem where
  "example_fs =
     [([''/'', ''work'', ''pkg''], Dir),
      ([''/'', ''work'', ''pkg'', ''m.py''], File (Module example_module)),
      ([''/'', ''work'', ''pkg'', ''sub''], Dir),
      ([''/'', ''work'', ''pkg'', ''sub'', ''__init__.py''], File (Module [OtherStmt])),
      ([''/'', ''work'', ''pkg'', ''sub'', ''mod.py''],
         File (Module [FunctionDef ''thing'' [OtherStmt]])),
      ([''/'', ''work'', ''pkg'', ''assets''], Dir),
      ([''/'', ''work'', ''pkg'', ''assets'', ''logo.svg''], File BadSyntax),
      ([''/'', ''usr'', ''lib'', ''python3''], Dir),
      ([''/'', ''usr'', ''lib'', ''python3'', ''colorsys.py''],
         File (Module [Assign [Name ''__all__''] OtherExpr,
                       FunctionDef ''rgb_to_yiq'' [OtherStmt]])),
      ([''/'', ''etc'', ''passwd''], File BadSyntax)]"

definition example_interp :: interp where
  "example_interp =
     \<lparr>sys_path = [[''/'', ''usr'', ''lib'', ''python3'']], sys_modules = [], executed = [],
      builtin_frozen = [(''sys'', \<lparr>origin = Some [''built-in''],
                                   submodule_search_locations = None\<rparr>)],
      extension_suffixes = [''.cpython-311-x86_64-linux-gnu.so'', ''.abi3.so'', ''.so'']\<rparr>"

text \<open>
  A second installation, with modules that the path-based finder of source files does
  not account for and with packages that act when they are imported: an extension
  module \<^verbatim>\<open>native\<close>, a module \<^verbatim>\<open>cached\<close> of byte code only, a source file
  \<^verbatim>\<open>sys.py\<close> that the built-in module of that name shadows, a package \<^verbatim>\<open>boom\<close>
  that ends the process with status 7, a package \<^verbatim>\<open>quiet\<close> that ends it with
  status 0, and a package \<^verbatim>\<open>setup\<close> that puts a directory in front of the search
  path. \<open>package_document\<close> is the document of the end-to-end scenario with a given
  entry point.
\<close>

definition side_effect_fs :: filesystem where
  "side_effect_fs =
     [([''/'', ''work'', ''pkg''], Dir),
      ([''/'', ''work'', ''pkg'', ''native.so''], File (Compiled [OtherStmt])),
      ([''/'', ''work'', ''pkg'', ''cached.pyc''], File (Compiled [OtherStmt])),
      ([''/'', ''work'', ''pkg'', ''sys.py''],
         File (Module [FunctionDef ''f'' [OtherStmt]])),
      ([''/'', ''work'', ''pkg'', ''boom''], Dir),
      ([''/'', ''work'', ''pkg'', ''boom'', ''__init__.py''], File (Module [SysExitCall 7])),
      ([''/'', ''work'', ''pkg'', ''boom'', ''mod.py''],
         File (Module [FunctionDef ''f'' [OtherStmt]])),
      ([''/'', ''work'', ''pkg'', ''quiet''], Dir),
      ([''/'', ''work'', ''pkg'', ''quiet'', ''__init__.py''], File (Module [SysExitCall 0])),
      ([''/'', ''work'', ''pkg'', ''quiet'', ''mod.py''], File (Module [OtherStmt])),
      ([''/'', ''work'', ''pkg'', ''setup''], Dir),
      ([''/'', ''work'', ''pkg'', ''setup'', ''__init__.py''],
         File (Module [SysPathInsert [''/'', ''work'', ''pkg'', ''vendor'']])),
      ([''/'', ''work'', ''pkg'', ''setup'', ''mod.py''],
         File (Module [FunctionDef ''f'' [OtherStmt]])),
      ([''/'', ''usr'', ''lib'', ''python3''], Dir)]"

definition package_document :: "string \<Rightarrow> (string \<times> yaml) list" where
  "package_document entry_point =
     [(''name'', YStr ''pkg''), (''description'', YStr ''d''),
      (''author'', YDict [(''name'', YStr ''A''), (''email'', YStr ''a@b.com'')]),
      (''provides'', YDict [(''code'', YStr entry_point)])]"

text \<open>
  The first failure of a list of check results, and the checks of
  \<^verbatim>\<open>validate_content\<close> in their order: the five that read the document only, then
  the check of the provides section.
\<close>

fun first_failure :: "unit result list \<Rightarrow> unit result" where
  "first_failure [] = Inr ()"
| "first_failure (Inl e # rest) = Inl e"
| "first_failure (Inr _ # rest) = first_failure rest"

definition early_checks ::
  "(string \<Rightarrow> bool) \<Rightarrow> (string \<times> yaml) list \<Rightarrow> string option \<Rightarrow> string option
     \<Rightarrow> unit result list" where
  "early_checks parse data tag name =
     [check_tag parse tag,
      check_package_name (get_default data ''name'' YNull) name,
      check_non_empty_str (get_default data ''name'' YNull) ''name'',
      check_non_empty_str (get_default data ''description'' YNull) ''description'',
      author_step data]"

definition content_checks ::
  "(string \<Rightarrow> bool) \<Rightarrow> filesystem \<Rightarrow> interp \<Rightarrow> (string \<times> yaml) list \<Rightarrow> path
     \<Rightarrow> string option \<Rightarrow> string option \<Rightarrow> unit result list" where
  "content_checks parse fs st data root_path tag name =
     early_checks parse data tag name @ [fst (provides_step fs st data root_path)]"

text \<open>
  A declared asset is in order: the entry is a mapping whose \<^verbatim>\<open>path\<close> is a
  non-empty string without a \<^verbatim>\<open>..\<close> segment that exists. A provides section is
  in order: it has \<^verbatim>\<open>code\<close> or \<^verbatim>\<open>assets\<close>, every declared asset is in order
  and the declared entry point resolves.
\<close>

definition asset_ok :: "filesystem \<Rightarrow> path \<Rightarrow> yaml \<Rightarrow> bool" where
  "asset_ok fs root_path asset_info =
     (\<exists>d s. asset_info = YDict d \<and> map_of d ''path'' = Some (YStr s) \<and> s \<noteq> []
        \<and> ''..'' \<notin> set (path_parts s)
        \<and> exists fs (path_join root_path (path_parts s)))"

definition provides_ok :: "filesystem \<Rightarrow> interp \<Rightarrow> (string \<times> yaml) list \<Rightarrow> path \<Rightarrow> bool" where
  "provides_ok fs st provides_data root_path =
     ((has_key provides_data ''code'' \<or> has_key provides_data ''assets'')
      \<and> (case map_of provides_data ''assets'' of
            None \<Rightarrow> True
          | Some v \<Rightarrow> (\<exists>assets. v = YList assets \<and> list_all (asset_ok fs root_path) assets))
      \<and> (case map_of provides_data ''code'' of
            None \<Rightarrow> True
          | Some v \<Rightarrow> fst (check_code_entry_point_value fs st v root_path) = Inr ()))"

text \<open>The end-to-end scenario with the address \<^verbatim>\<open>not-an-email\<close>.\<close>

definition bad_email_document :: "(string \<times> yaml) list" where
  "bad_email_document =
     [(''name'', YStr ''pkg''), (''description'', YStr ''d''),
      (''author'', YDict [(''name'', YStr ''A''), (''email'', YStr ''not-an-email'')]),
      (''provides'', YDict [(''code'', YStr ''m:f'')])]"

text \<open>The decimal numeral of a natural number, for tags of the form
  \<^verbatim>\<open>vMAJOR.MINOR.PATCH\<close>.\<close>

definition digit_char :: "nat \<Rightarrow> char" where
  "digit_char d = char_of (48 + d)"

fun decimal :: "nat \<Rightarrow> string" where
  "decimal n = (if n < 10 then [digit_char n] else decimal (n div 10) @ [digit_char (n mod 10)])"

declare decimal.simps [simp del]

section \<open>Regular expressions: the matcher decides the language\<close>

lemma conc_iff: "zs \<in> conc A B \<longleftrightarrow> (\<exists>xs ys. zs = xs @ ys \<and> xs \<in> A \<and> ys \<in> B)"
  by (auto simp: conc_def)

lemma Nil_in_conc: "[] \<in> conc A B \<longleftrightarrow> [] \<in> A \<and> [] \<in> B"
  by (auto simp: conc_iff)

lemma nullable_lang: "nullable r \<longleftrightarrow> [] \<in> lang r"
  by (induction r) (simp_all add: Nil_in_conc star.star_nil)

lemma Cons_in_conc:
  "c # zs \<in> conc A B \<longleftrightarrow>
     (\<exists>xs ys. zs = xs @ ys \<and> c # xs \<in> A \<and> ys \<in> B) \<or> ([] \<in> A \<and> c # zs \<in> B)"
proof
  assume "c # zs \<in> conc A B"
  then obtain xs ys where split: "c # zs = xs @ ys" "xs \<in> A" "ys \<in> B"
    by (auto simp: conc_iff)
  show "(\<exists>xs ys. zs = xs @ ys \<and> c # xs \<in> A \<and> ys \<in> B) \<or> ([] \<in> A \<and> c # zs \<in> B)"
  proof (cases xs)
    case Nil
    with split show ?thesis by simp
  next
    case (Cons x xs')
    with split show ?thesis by auto
  qed
next
  assume "(\<exists>xs ys. zs = xs @ ys \<and> c # xs \<in> A \<and> ys \<in> B) \<or> ([] \<in> A \<and> c # zs \<in> B)"
  then show "c # zs \<in> conc A B"
  proof
    assume "\<exists>xs ys. zs = xs @ ys \<and> c # xs \<in> A \<and> ys \<in> B"
    then obtain xs ys where "zs = xs @ ys" "c # xs \<in> A" "ys \<in> B" by blast
    then have "(c # xs) @ ys \<in> conc A B" unfolding conc_iff by blast
    then show ?thesis using \<open>zs = xs @ ys\<close> by simp
  next
    assume "[] \<in> A \<and> c # zs \<in> B"
    then have "[] @ (c # zs) \<in> conc A B" unfolding conc_iff by blast
    then show ?thesis by simp
  qed
qed

lemma star_Cons_split:
  "zs \<in> star A \<Longrightarrow> zs = c # ws \<Longrightarrow> \<exists>xs ys. ws = xs @ ys \<and> c # xs \<in> A \<and> ys \<in> star A"
proof (induction arbitrary: ws rule: star.induct)
  case star_nil
  then show ?case by simp
next
  case (star_step xs ys)
  show ?case
  proof (cases xs)
    case Nil
    with star_step show ?thesis by simp
  next
    case (Cons x xs')
    with star_step.prems have "ws = xs' @ ys" "x = c" by simp_all
    with star_step.hyps Cons show ?thesis by blast
  qed
qed

lemma Cons_in_star:
  "c # ws \<in> star A \<longleftrightarrow> (\<exists>xs ys. ws = xs @ ys \<and> c # xs \<in> A \<and> ys \<in> star A)"
proof
  assume "c # ws \<in> star A"
  then show "\<exists>xs ys. ws = xs @ ys \<and> c # xs \<in> A \<and> ys \<in> star A"
    by (rule star_Cons_split) simp
next
  assume "\<exists>xs ys. ws = xs @ ys \<and> c # xs \<in> A \<and> ys \<in> star A"
  then obtain xs ys where "ws = xs @ ys" "c # xs \<in> A" "ys \<in> star A" by blast
  then have "(c # xs) @ ys \<in> star A" by (intro star.star_step)
  then show "c # ws \<in> star A" using \<open>ws = xs @ ys\<close> by simp
qed

lemma deriv_lang: "ws \<in> lang (deriv c r) \<longleftrightarrow> c # ws \<in> lang r"
proof (induction r arbitrary: ws)
  case RNone
  show ?case by simp
next
  case REps
  show ?case by simp
next
  case (RAtom p)
  show ?case by simp
next
  case (RAlt r1 r2)
  then show ?case by simp
next
  case (RSeq r1 r2)
  have left: "ws \<in> lang (RSeq (deriv c r1) r2)
                \<longleftrightarrow> (\<exists>xs ys. ws = xs @ ys \<and> c # xs \<in> lang r1 \<and> ys \<in> lang r2)"
    by (simp add: conc_iff RSeq.IH(1))
  show ?case
  proof (cases "nullable r1")
    case True
    then have "[] \<in> lang r1" by (simp add: nullable_lang)
    with True left RSeq.IH(2) [of ws] show ?thesis
      by (simp add: Cons_in_conc)
  next
    case False
    then have "[] \<notin> lang r1" by (simp add: nullable_lang)
    with False left show ?thesis
      by (simp add: Cons_in_conc)
  qed
next
  case (RStar r)
  have "ws \<in> lang (deriv c (RStar r))
          \<longleftrightarrow> (\<exists>xs ys. ws = xs @ ys \<and> c # xs \<in> lang r \<and> ys \<in> star (lang r))"
    by (simp add: conc_iff RStar.IH)
  then show ?case by (simp add: Cons_in_star)
qed

lemma fullmatch_lang: "fullmatch r s \<longleftrightarrow> s \<in> lang r"
  by (induction s arbitrary: r) (simp_all add: nullable_lang deriv_lang)

subsection \<open>Repetitions of a character class\<close>

lemma star_atom: "s \<in> star {[c] | c. p c} \<longleftrightarrow> list_all p s"
proof
  assume "s \<in> star {[c] | c. p c}"
  then show "list_all p s" by (induction rule: star.induct) auto
next
  assume "list_all p s"
  then show "s \<in> star {[c] | c. p c}"
  proof (induction s)
    case Nil
    show ?case by (rule star.star_nil)
  next
    case (Cons c cs)
    then have "[c] \<in> {[c] | c. p c}" "cs \<in> star {[c] | c. p c}" by auto
    then have "[c] @ cs \<in> star {[c] | c. p c}" by (rule star.star_step)
    then show ?case by simp
  qed
qed

lemma lang_rplus_atom: "s \<in> lang (rplus (RAtom p)) \<longleftrightarrow> s \<noteq> [] \<and> list_all p s"
proof -
  have "s \<in> lang (rplus (RAtom p)) \<longleftrightarrow> (\<exists>c cs. s = [c] @ cs \<and> p c \<and> list_all p cs)"
    unfolding rplus_def lang.simps conc_iff star_atom by blast
  also have "\<dots> \<longleftrightarrow> s \<noteq> [] \<and> list_all p s"
    by (cases s) auto
  finally show ?thesis .
qed

lemma lang_rchar: "s \<in> lang (rchar c) \<longleftrightarrow> s = [c]"
  by (auto simp: rchar_def)

lemma email_regex_lang:
  "s \<in> lang email_regex \<longleftrightarrow>
     (\<exists>l r1. s = l @ r1 \<and> (l \<noteq> [] \<and> list_all email_local l) \<and>
        (\<exists>a r2. r1 = a @ r2 \<and> a = ''@'' \<and>
           (\<exists>d r3. r2 = d @ r3 \<and> (d \<noteq> [] \<and> list_all email_domain d) \<and>
              (\<exists>b t. r3 = b @ t \<and> b = ''.'' \<and> (t \<noteq> [] \<and> list_all email_tld t)))))"
  unfolding email_regex_def lang.simps(5) conc_iff lang_rplus_atom lang_rchar ..

lemma email_regex_shape: "fullmatch email_regex s \<longleftrightarrow> email_shape s"
proof -
  have "email_shape s \<longleftrightarrow>
     (\<exists>l r1. s = l @ r1 \<and> (l \<noteq> [] \<and> list_all email_local l) \<and>
        (\<exists>a r2. r1 = a @ r2 \<and> a = ''@'' \<and>
           (\<exists>d r3. r2 = d @ r3 \<and> (d \<noteq> [] \<and> list_all email_domain d) \<and>
              (\<exists>b t. r3 = b @ t \<and> b = ''.'' \<and> (t \<noteq> [] \<and> list_all email_tld t)))))"
    unfolding email_shape_def by blast
  then show ?thesis by (simp only: fullmatch_lang email_regex_lang)
qed

section \<open>Schema validation and undeclared keys\<close>

lemma validate_dict_schema_cong:
  "(\<And>k. k \<in> set (map fst schema) \<Longrightarrow> map_of data' k = map_of data k)
   \<Longrightarrow> validate_dict_schema data' schema parent_key = validate_dict_schema data schema parent_key"
proof (induction schema)
  case Nil
  then show ?case by simp
next
  case (Cons entry schema)
  obtain key rules where entry: "entry = (key, rules)" by (cases entry)
  have here: "map_of data' key = map_of data key"
    using Cons.prems [of key] by (simp add: entry)
  have rest: "validate_dict_schema data' schema parent_key
                = validate_dict_schema data schema parent_key"
    using Cons.IH Cons.prems by simp
  show ?case by (simp add: entry here rest split: option.split)
qed

lemma extends_undeclared_agree:
  assumes "extends_undeclared data' data schema" and "k \<in> set (map fst schema)"
  shows "map_of data' k = map_of data k"
proof (cases "k \<in> set (map fst data)")
  case True
  with assms(1) show ?thesis by (auto simp: extends_undeclared_def)
next
  case False
  with assms have "k \<notin> set (map fst data')"
    unfolding extends_undeclared_def by (metis (no_types, lifting))
  then have "map_of data' k = None" by (simp add: map_of_eq_None_iff)
  moreover from False have "map_of data k = None" by (simp add: map_of_eq_None_iff)
  ultimately show ?thesis by simp
qed

text \<open>
  C9. Schema validation examines only the keys that the schema declares: two documents
  that agree on those keys get the same verdict. So a document that passes still passes
  when keys that the schema does not declare are added to it, for
  \<^verbatim>\<open>_validate_dict_schema\<close> with any schema and for \<^verbatim>\<open>validate_schema\<close>.
\<close>

theorem schema_ignores_undeclared_keys:
  "((\<forall>k \<in> set (map fst schema). map_of data' k = map_of data k)
      \<longrightarrow> validate_dict_schema data' schema parent_key
            = validate_dict_schema data schema parent_key)
   \<and> (validate_dict_schema data schema parent_key = Inr ()
        \<and> extends_undeclared data' data schema
      \<longrightarrow> validate_dict_schema data' schema parent_key = Inr ())
   \<and> (validate_schema data = Inr () \<and> extends_undeclared data' data SCHEMA
      \<longrightarrow> validate_schema data' = Inr ())"
proof (intro conjI impI)
  assume "\<forall>k \<in> set (map fst schema). map_of data' k = map_of data k"
  then show "validate_dict_schema data' schema parent_key
               = validate_dict_schema data schema parent_key"
    by (intro validate_dict_schema_cong) auto
next
  assume a: "validate_dict_schema data schema parent_key = Inr ()
             \<and> extends_undeclared data' data schema"
  then have "validate_dict_schema data' schema parent_key
               = validate_dict_schema data schema parent_key"
    by (intro validate_dict_schema_cong extends_undeclared_agree) auto
  with a show "validate_dict_schema data' schema parent_key = Inr ()" by simp
next
  assume a: "validate_schema data = Inr () \<and> extends_undeclared data' data SCHEMA"
  then have top: "validate_dict_schema data' SCHEMA [] = validate_dict_schema data SCHEMA []"
    by (intro validate_dict_schema_cong extends_undeclared_agree) auto
  have "map_of data' ''author'' = map_of data ''author''"
    using a by (intro extends_undeclared_agree [of _ _ SCHEMA]) (auto simp: SCHEMA_def)
  with top a show "validate_schema data' = Inr ()"
    unfolding validate_schema_def by metis
qed

theorem schema_ignores_undeclared_keys_witness:
  "validate_schema example_document = Inr ()
   \<and> extends_undeclared (example_document @ [(''license'', YStr ''MIT'')]) example_document SCHEMA
   \<and> validate_schema (example_document @ [(''license'', YStr ''MIT'')]) = Inr ()
   \<and> validate_dict_schema (example_document @ [(''license'', YStr ''MIT'')]) SCHEMA [] = Inr ()"
proof -
  have ok: "validate_schema example_document = Inr ()"
    by (simp add: validate_schema_def example_document_def SCHEMA_def AUTHOR_SCHEMA_def isinstance_def)
  have ok2: "validate_dict_schema example_document SCHEMA [] = Inr ()"
    by (simp add: example_document_def SCHEMA_def isinstance_def)
  have ext: "extends_undeclared (example_document @ [(''license'', YStr ''MIT'')]) example_document SCHEMA"
    by (simp add: extends_undeclared_def example_document_def SCHEMA_def)
  have agree: "\<forall>k \<in> set (map fst SCHEMA).
                 map_of (example_document @ [(''license'', YStr ''MIT'')]) k = map_of example_document k"
    by (simp add: example_document_def SCHEMA_def)
  show ?thesis
    using schema_ignores_undeclared_keys
            [of SCHEMA "example_document @ [(''license'', YStr ''MIT'')]" example_document "[]"] ok ok2 ext agree
    by simp
qed

section \<open>Asset paths\<close>

lemma path_parts_Nil: "path_parts [] = []"
  by (simp add: path_parts_def path_root_def)

text \<open>
  C6. \<^verbatim>\<open>_check_asset_path\<close> fails with the path-traversal error exactly when the
  value is a string one of whose parsed segments is \<^verbatim>\<open>..\<close>, whatever the file system
  holds: the segment test comes before the existence test. A name that only contains
  two dots, as \<^verbatim>\<open>..foo\<close>, is no such segment; \<^verbatim>\<open>assets/../secret\<close> has one.
\<close>

theorem traversal_iff_dotdot_segment:
  "(check_asset_path fs v root_path = Inl PathTraversal
      \<longleftrightarrow> (\<exists>s. v = YStr s \<and> ''..'' \<in> set (path_parts s)))
   \<and> check_asset_path fs (YStr ''..foo'') root_path \<noteq> Inl PathTraversal
   \<and> check_asset_path fs (YStr ''assets/../secret'') root_path = Inl PathTraversal"
proof (intro conjI)
  show "check_asset_path fs v root_path = Inl PathTraversal
      \<longleftrightarrow> (\<exists>s. v = YStr s \<and> ''..'' \<in> set (path_parts s))"
    by (cases v) (auto simp: check_asset_path_def isinstance_def path_parts_Nil)
  show "check_asset_path fs (YStr ''..foo'') root_path \<noteq> Inl PathTraversal"
    by (simp add: check_asset_path_def isinstance_def path_parts_def path_root_def)
  show "check_asset_path fs (YStr ''assets/../secret'') root_path = Inl PathTraversal"
    by (simp add: check_asset_path_def isinstance_def path_parts_def path_root_def)
qed

theorem traversal_iff_dotdot_segment_witness:
  "check_asset_path example_fs (YStr ''assets/../secret'') example_root = Inl PathTraversal
   \<and> ''..'' \<in> set (path_parts ''assets/../secret'')
   \<and> check_asset_path example_fs (YStr ''assets/logo.svg'') example_root = Inr ()
   \<and> ''..'' \<notin> set (path_parts ''assets/logo.svg'')"
proof -
  have a: "check_asset_path example_fs (YStr ''assets/../secret'') example_root
             = Inl PathTraversal" by code_simp
  have b: "check_asset_path example_fs (YStr ''assets/logo.svg'') example_root = Inr ()"
    by code_simp
  from a b show ?thesis
    using traversal_iff_dotdot_segment
            [of example_fs "YStr ''assets/../secret''" example_root]
          traversal_iff_dotdot_segment
            [of example_fs "YStr ''assets/logo.svg''" example_root]
    by simp
qed

text \<open>
  C2 fails on the code for an absolute path. Joining the package root with
  \<^verbatim>\<open>/etc/passwd\<close> gives \<^verbatim>\<open>/etc/passwd\<close>, which has no \<^verbatim>\<open>..\<close> segment
  and exists, so \<^verbatim>\<open>_check_asset_path\<close> succeeds on a path that is not under the
  package root.
\<close>

theorem absolute_asset_escapes_root:
  "check_asset_path example_fs (YStr ''/etc/passwd'') example_root = Inr ()
   \<and> exists example_fs (path_join example_root (path_parts ''/etc/passwd''))
   \<and> \<not> prefix example_root (path_join example_root (path_parts ''/etc/passwd''))"
  by code_simp

theorem absolute_asset_escapes_root_witness:
  "is_absolute (path_parts ''/etc/passwd'')
   \<and> path_join example_root (path_parts ''/etc/passwd'') = [''/'', ''etc'', ''passwd'']
   \<and> check_asset_path example_fs (YStr ''/etc/passwd'') example_root = Inr ()
   \<and> \<not> prefix example_root [''/'', ''etc'', ''passwd'']"
proof -
  have a: "is_absolute (path_parts ''/etc/passwd'')" by code_simp
  have j: "path_join example_root (path_parts ''/etc/passwd'') = [''/'', ''etc'', ''passwd'']"
    by code_simp
  from a j show ?thesis
    using absolute_asset_escapes_root by simp
qed

text \<open>
  The part of C2 that holds: when \<^verbatim>\<open>_check_asset_path\<close> succeeds on a relative
  path, the joined path exists and lies under the package root.
\<close>

theorem relative_asset_under_root:
  assumes "check_asset_path fs (YStr s) root_path = Inr ()"
    and "\<not> is_absolute (path_parts s)"
  shows "exists fs (path_join root_path (path_parts s))
         \<and> prefix root_path (path_join root_path (path_parts s))"
  using assms
  by (auto simp: check_asset_path_def path_join_def isinstance_def split: if_splits)

theorem relative_asset_under_root_witness:
  "check_asset_path example_fs (YStr ''assets/logo.svg'') example_root = Inr ()
   \<and> \<not> is_absolute (path_parts ''assets/logo.svg'')
   \<and> exists example_fs (path_join example_root (path_parts ''assets/logo.svg''))
   \<and> prefix example_root (path_join example_root (path_parts ''assets/logo.svg''))"
proof -
  have a: "check_asset_path example_fs (YStr ''assets/logo.svg'') example_root = Inr ()"
    by code_simp
  have b: "\<not> is_absolute (path_parts ''assets/logo.svg'')" by code_simp
  from a b show ?thesis
    using relative_asset_under_root [OF a b] by simp
qed

section \<open>The version tag\<close>

text \<open>
  C10. An empty tag is treated as an absent one: \<^verbatim>\<open>_check_tag\<close> succeeds on it
  whatever the parser would say, so the parser is not consulted, and
  \<^verbatim>\<open>validate_content\<close> gives the same result for the empty tag and for no tag, on
  every document.
\<close>

theorem empty_tag_is_absent:
  "check_tag parse (Some []) = Inr ()
   \<and> check_tag parse (Some []) = check_tag parse None
   \<and> validate_content parse fs st data root_path (Some []) name
       = validate_content parse fs st data root_path None name"
  by (simp add: check_tag_def validate_content_def)

theorem empty_tag_is_absent_witness:
  "check_tag semver_parse (Some []) = Inr ()
   \<and> \<not> semver_parse (py_lstrip ''v'' [])"
proof -
  have "\<not> semver_parse (py_lstrip ''v'' [])" by code_simp
  then show ?thesis
    using empty_tag_is_absent [of semver_parse] by simp
qed

text \<open>
  C5 fails on the code for a tag that starts with two \<^verbatim>\<open>v\<close>: \<^verbatim>\<open>lstrip("v")\<close>
  removes both, so \<^verbatim>\<open>vv1.2.3\<close> is accepted, although the tag without one leading
  \<^verbatim>\<open>v\<close>, \<^verbatim>\<open>v1.2.3\<close>, is no semantic version.
\<close>

theorem tag_with_repeated_v_accepted:
  "check_tag semver_parse (Some ''vv1.2.3'') = Inr ()
   \<and> strip_leading_v ''vv1.2.3'' = ''v1.2.3''
   \<and> \<not> semver_parse (strip_leading_v ''vv1.2.3'')"
  by code_simp

theorem tag_with_repeated_v_accepted_witness:
  "py_lstrip ''v'' ''vv1.2.3'' = ''1.2.3''
   \<and> semver_parse ''1.2.3''
   \<and> check_tag semver_parse (Some ''vv1.2.3'') = Inr ()
   \<and> \<not> semver_parse ''v1.2.3''"
proof -
  have l: "py_lstrip ''v'' ''vv1.2.3'' = ''1.2.3''" by code_simp
  have p: "semver_parse ''1.2.3''" by code_simp
  from l p show ?thesis
    using tag_with_repeated_v_accepted by auto
qed

lemma digit_char_zero: "digit_char 0 = CHR ''0''"
  by code_simp

lemma digit_char_digit: "d < 10 \<Longrightarrow> ascii_digit (digit_char d)"
  by (simp add: digit_char_def ascii_digit_def in_range_def less_eq_char_def)

lemma digit_char_nonzero: "0 < d \<Longrightarrow> d < 10 \<Longrightarrow> nonzero_digit (digit_char d)"
  by (simp add: digit_char_def nonzero_digit_def in_range_def less_eq_char_def)

lemma decimal_positive:
  "0 < n \<Longrightarrow> \<exists>c ds. decimal n = c # ds \<and> nonzero_digit c \<and> list_all ascii_digit ds"
proof (induction n rule: decimal.induct)
  case (1 n)
  show ?case
  proof (cases "n < 10")
    case True
    with "1.prems" show ?thesis
      by (simp add: decimal.simps [of n] digit_char_nonzero)
  next
    case False
    then have "0 < n div 10" by simp
    with "1.IH" False obtain c ds where
      "decimal (n div 10) = c # ds" "nonzero_digit c" "list_all ascii_digit ds"
      by blast
    moreover have "ascii_digit (digit_char (n mod 10))"
      by (simp add: digit_char_digit)
    ultimately show ?thesis
      using False by (simp add: decimal.simps [of n])
  qed
qed

lemma conc_intro: "xs \<in> A \<Longrightarrow> ys \<in> B \<Longrightarrow> xs @ ys \<in> conc A B"
  by (auto simp: conc_iff)

lemma decimal_numeric_id: "decimal n \<in> lang numeric_id"
proof (cases "n = 0")
  case True
  then show ?thesis
    by (simp add: decimal.simps [of 0] digit_char_zero numeric_id_def rchar_def)
next
  case False
  then obtain c ds where d: "decimal n = c # ds" "nonzero_digit c" "list_all ascii_digit ds"
    using decimal_positive [of n] by auto
  have "[c] @ ds \<in> conc (lang (RAtom nonzero_digit)) (lang (RStar (RAtom ascii_digit)))"
    using d by (intro conc_intro) (simp_all add: star_atom)
  with d show ?thesis by (simp add: numeric_id_def)
qed

lemma decimal_head: "\<exists>c ds. decimal n = c # ds \<and> c \<noteq> CHR ''v''"
proof (cases "n = 0")
  case True
  then show ?thesis by (simp add: decimal.simps [of 0] digit_char_zero)
next
  case False
  then obtain c ds where d: "decimal n = c # ds" "nonzero_digit c"
    using decimal_positive [of n] by auto
  have "\<not> nonzero_digit CHR ''v''"
    by (simp add: nonzero_digit_def in_range_def less_eq_char_def)
  with d show ?thesis by auto
qed

lemma Nil_in_ropt: "[] \<in> lang (ropt r)"
  by (simp add: ropt_def)

lemma semver_core:
  "a \<in> lang numeric_id \<Longrightarrow> b \<in> lang numeric_id \<Longrightarrow> c \<in> lang numeric_id
   \<Longrightarrow> a @ ''.'' @ b @ ''.'' @ c \<in> lang semver_regex"
proof -
  assume a: "a \<in> lang numeric_id" and b: "b \<in> lang numeric_id" and c: "c \<in> lang numeric_id"
  let ?pre = "ropt (RSeq (rchar CHR ''-'') (dotted prerelease_id))"
  let ?build = "ropt (RSeq (rchar CHR ''+'') (dotted (rplus (RAtom alnum_or_hyphen))))"
  have tail: "[] @ [] \<in> conc (lang ?pre) (lang ?build)"
    by (intro conc_intro Nil_in_ropt)
  have dot: "''.'' \<in> lang (rchar CHR ''.'')" by (simp add: lang_rchar)
  have "a @ (''.'' @ (b @ (''.'' @ (c @ ([] @ [])))))
          \<in> conc (lang numeric_id) (conc (lang (rchar CHR ''.''))
               (conc (lang numeric_id) (conc (lang (rchar CHR ''.''))
                 (conc (lang numeric_id) (conc (lang ?pre) (lang ?build))))))"
    by (intro conc_intro a b c dot tail)
  then show ?thesis by (simp add: semver_regex_def)
qed

lemma decimal_digits: "list_all ascii_digit (decimal n)"
proof (cases "n = 0")
  case True
  then show ?thesis
    by (simp add: decimal.simps [of 0] digit_char_digit)
next
  case False
  then obtain c ds where d: "decimal n = c # ds" "nonzero_digit c" "list_all ascii_digit ds"
    using decimal_positive [of n] by auto
  from d(2) have "ascii_digit c"
    by (simp add: nonzero_digit_def ascii_digit_def in_range_def less_eq_char_def)
  with d show ?thesis by simp
qed

lemma split_first_colon:
  "sep \<notin> set m \<Longrightarrow> split_first sep (m @ sep # a) = (m, a)"
  by (induction m) (auto simp: split_first_def)

lemma dot_not_digits: "list_all ascii_digit ds \<Longrightarrow> CHR ''.'' \<notin> set ds"
  by (induction ds) (auto simp: ascii_digit_def in_range_def less_eq_char_def)

lemma takeWhile_digits: "list_all ascii_digit ds \<Longrightarrow> takeWhile ascii_digit ds = ds"
  by (induction ds) auto

lemma core_fields_decimal:
  "core_fields (decimal major @ ''.'' @ decimal minor @ ''.'' @ decimal patch)
     = [decimal major, decimal minor, decimal patch]"
proof -
  have a: "split_first CHR ''.'' (decimal major @ CHR ''.'' # decimal minor @ CHR ''.'' # decimal patch)
             = (decimal major, decimal minor @ CHR ''.'' # decimal patch)"
    by (intro split_first_colon dot_not_digits decimal_digits)
  have b: "split_first CHR ''.'' (decimal minor @ CHR ''.'' # decimal patch)
             = (decimal minor, decimal patch)"
    by (intro split_first_colon dot_not_digits decimal_digits)
  have c: "takeWhile ascii_digit (decimal patch) = decimal patch"
    by (intro takeWhile_digits decimal_digits)
  show ?thesis
    by (simp add: core_fields_def a b c)
qed

lemma semver_parse_decimal:
  assumes "length (decimal major) \<le> max_str_digits"
    and "length (decimal minor) \<le> max_str_digits"
    and "length (decimal patch) \<le> max_str_digits"
  shows "semver_parse (decimal major @ ''.'' @ decimal minor @ ''.'' @ decimal patch)"
proof -
  have "fullmatch semver_regex (decimal major @ ''.'' @ decimal minor @ ''.'' @ decimal patch)"
    unfolding fullmatch_lang by (intro semver_core decimal_numeric_id)
  moreover have "list_all (\<lambda>field. length field \<le> max_str_digits)
                   (core_fields (decimal major @ ''.'' @ decimal minor @ ''.'' @ decimal patch))"
    unfolding core_fields_decimal using assms by simp
  ultimately show ?thesis
    unfolding semver_parse_def by (rule conjI)
qed

lemma check_tag_nonempty:
  "t \<noteq> [] \<Longrightarrow> check_tag parse (Some t)
                = (if parse (py_lstrip ''v'' t) then Inr () else Inl InvalidVersion)"
  by (simp add: check_tag_def)

text \<open>
  The part of C5 that holds: every tag \<^verbatim>\<open>vMAJOR.MINOR.PATCH\<close> of decimal numerals
  that are short enough for the conversion to an integer, with or without the
  \<^verbatim>\<open>v\<close>, passes \<^verbatim>\<open>_check_tag\<close>, and \<^verbatim>\<open>v1.2\<close>, \<^verbatim>\<open>abc\<close> and
  \<^verbatim>\<open>1.2.3.4\<close> fail with the invalid-version error.
\<close>

theorem plain_version_tags_accepted:
  assumes "length (decimal major) \<le> max_str_digits"
    and "length (decimal minor) \<le> max_str_digits"
    and "length (decimal patch) \<le> max_str_digits"
  shows "check_tag semver_parse
     (Some (''v'' @ decimal major @ ''.'' @ decimal minor @ ''.'' @ decimal patch)) = Inr ()
   \<and> check_tag semver_parse
     (Some (decimal major @ ''.'' @ decimal minor @ ''.'' @ decimal patch)) = Inr ()
   \<and> check_tag semver_parse (Some ''v1.2'') = Inl InvalidVersion
   \<and> check_tag semver_parse (Some ''abc'') = Inl InvalidVersion
   \<and> check_tag semver_parse (Some ''1.2.3.4'') = Inl InvalidVersion"
proof -
  obtain c ds where d: "decimal major = c # ds" "c \<noteq> CHR ''v''"
    using decimal_head [of major] by blast
  let ?v = "decimal major @ ''.'' @ decimal minor @ ''.'' @ decimal patch"
  have strip1: "py_lstrip ''v'' (''v'' @ ?v) = ?v"
    using d by (simp add: py_lstrip_def)
  have strip2: "py_lstrip ''v'' ?v = ?v"
    using d by (simp add: py_lstrip_def)
  have ok: "semver_parse ?v" using assms by (rule semver_parse_decimal)
  have a: "check_tag semver_parse (Some (''v'' @ ?v)) = Inr ()"
  proof -
    have "check_tag semver_parse (Some (''v'' @ ?v))
            = (if semver_parse (py_lstrip ''v'' (''v'' @ ?v)) then Inr ()
               else Inl InvalidVersion)"
      by (rule check_tag_nonempty) simp
    also have "\<dots> = Inr ()" unfolding strip1 using ok by simp
    finally show ?thesis .
  qed
  have b: "check_tag semver_parse (Some ?v) = Inr ()"
  proof -
    have "check_tag semver_parse (Some ?v)
            = (if semver_parse (py_lstrip ''v'' ?v) then Inr () else Inl InvalidVersion)"
      using d by (intro check_tag_nonempty) simp
    also have "\<dots> = Inr ()" unfolding strip2 using ok by simp
    finally show ?thesis .
  qed
  have c1: "check_tag semver_parse (Some ''v1.2'') = Inl InvalidVersion" by code_simp
  have c2: "check_tag semver_parse (Some ''abc'') = Inl InvalidVersion" by code_simp
  have c3: "check_tag semver_parse (Some ''1.2.3.4'') = Inl InvalidVersion" by code_simp
  from a b c1 c2 c3 show ?thesis by blast
qed

theorem plain_version_tags_accepted_witness:
  "length (decimal 1) \<le> max_str_digits
   \<and> length (decimal 20) \<le> max_str_digits
   \<and> length (decimal 0) \<le> max_str_digits
   \<and> decimal 1 @ ''.'' @ decimal 20 @ ''.'' @ decimal 0 = ''1.20.0''
   \<and> check_tag semver_parse (Some ''v1.20.0'') = Inr ()"
proof -
  have a: "length (decimal 1) \<le> max_str_digits" by code_simp
  have b: "length (decimal 20) \<le> max_str_digits" by code_simp
  have c: "length (decimal 0) \<le> max_str_digits" by code_simp
  have d: "decimal 1 @ ''.'' @ decimal 20 @ ''.'' @ decimal 0 = ''1.20.0''" by code_simp
  from a b c d show ?thesis
    using plain_version_tags_accepted [OF a b c] by simp
qed

text \<open>
  For a non-empty tag that does not start with two \<^verbatim>\<open>v\<close>, \<^verbatim>\<open>_check_tag\<close>
  succeeds exactly when the parser accepts the tag without its one leading \<^verbatim>\<open>v\<close>.
\<close>

theorem tag_check_single_v:
  "t \<noteq> [] \<Longrightarrow> \<not> prefix ''vv'' t
   \<Longrightarrow> check_tag parse (Some t)
         = (if parse (strip_leading_v t) then Inr () else Inl InvalidVersion)"
proof -
  assume t: "t \<noteq> []" and vv: "\<not> prefix ''vv'' t"
  have "py_lstrip ''v'' t = strip_leading_v t"
  proof (cases t)
    case Nil
    with t show ?thesis by simp
  next
    case (Cons c rest)
    show ?thesis
    proof (cases "c = CHR ''v''")
      case True
      with vv Cons have "rest = [] \<or> hd rest \<noteq> CHR ''v''" by (cases rest) auto
      with True Cons show ?thesis
        by (cases rest) (auto simp: py_lstrip_def strip_leading_v_def)
    next
      case False
      with Cons show ?thesis by (simp add: py_lstrip_def strip_leading_v_def)
    qed
  qed
  with t show ?thesis by (simp add: check_tag_nonempty)
qed

theorem tag_check_single_v_witness:
  "''v1.2'' \<noteq> [] \<and> \<not> prefix ''vv'' ''v1.2'' \<and> strip_leading_v ''v1.2'' = ''1.2''
   \<and> \<not> semver_parse ''1.2''
   \<and> check_tag semver_parse (Some ''v1.2'') = Inl InvalidVersion"
proof -
  have a: "''v1.2'' \<noteq> []" by simp
  have b: "\<not> prefix ''vv'' ''v1.2''" by simp
  have c: "strip_leading_v ''v1.2'' = ''1.2''" by code_simp
  have d: "\<not> semver_parse ''1.2''" by code_simp
  from a b c d show ?thesis
    using tag_check_single_v [OF a b, of semver_parse] by simp
qed

section \<open>The author's e-mail address\<close>

lemma newline_not_tld: "\<not> email_tld newline"
  by (simp add: email_tld_def newline_def ascii_lower_def ascii_upper_def ascii_digit_def
        in_range_def)

lemma email_shape_last:
  assumes "email_shape s"
  shows "s \<noteq> [] \<and> last s \<noteq> newline"
proof -
  from assms obtain l d t where s: "s = l @ ''@'' @ d @ ''.'' @ t"
    and t: "t \<noteq> []" "list_all email_tld t"
    unfolding email_shape_def by blast
  from t have "email_tld (last t)" by (simp add: list_all_iff)
  with newline_not_tld have "last t \<noteq> newline" by metis
  moreover from s t have "last s = last t" by simp
  moreover from s have "s \<noteq> []" by simp
  ultimately show ?thesis by simp
qed

lemma email_match_no_newline:
  assumes "s = [] \<or> last s \<noteq> newline"
  shows "re_match_anchored email_regex s \<longleftrightarrow> email_shape s"
  using assms unfolding re_match_anchored_def email_regex_shape by blast

lemma py_strip_Nil: "py_strip [] = []"
  by (simp add: py_strip_def)

lemma check_non_empty_str_ok:
  "py_strip s \<noteq> [] \<Longrightarrow> check_non_empty_str (YStr s) key = Inr ()"
  by (auto simp: check_non_empty_str_def py_strip_Nil)

text \<open>
  C7, as amended. When the author's name passes its own checks (it is not blank and
  holds no placeholder) and the e-mail address is not blank and does not end in a
  newline, \<^verbatim>\<open>_check_author_content\<close> succeeds if the address has the e-mail shape
  and fails with the invalid-e-mail error otherwise.
\<close>

theorem author_email_shape:
  assumes "map_of author ''name'' = Some (YStr n)"
    and "py_strip n \<noteq> []"
    and "\<not> str_contains ''your-github-username'' n"
    and "map_of author ''email'' = Some (YStr m)"
    and "py_strip m \<noteq> []"
    and "last m \<noteq> newline"
  shows "check_author_content author = (if email_shape m then Inr () else Inl InvalidEmail)"
proof -
  have "re_match_anchored email_regex m \<longleftrightarrow> email_shape m"
    using assms(6) by (intro email_match_no_newline) simp
  with assms show ?thesis
    by (simp add: check_author_content_def get_default_def check_non_empty_str_ok)
qed

theorem author_email_shape_witness:
  "py_strip ''A'' \<noteq> []
   \<and> \<not> str_contains ''your-github-username'' ''A''
   \<and> py_strip ''not-an-email'' \<noteq> []
   \<and> last ''not-an-email'' \<noteq> newline
   \<and> check_author_content [(''name'', YStr ''A''), (''email'', YStr ''not-an-email'')]
       = Inl InvalidEmail
   \<and> \<not> email_shape ''not-an-email''
   \<and> py_strip ''a@b.com'' \<noteq> []
   \<and> last ''a@b.com'' \<noteq> newline
   \<and> check_author_content [(''name'', YStr ''A''), (''email'', YStr ''a@b.com'')] = Inr ()
   \<and> email_shape ''a@b.com''"
proof -
  have n: "py_strip ''A'' \<noteq> []" by code_simp
  have p: "\<not> str_contains ''your-github-username'' ''A''" by code_simp
  have m1: "py_strip ''not-an-email'' \<noteq> []" by code_simp
  have l1: "last ''not-an-email'' \<noteq> newline" by code_simp
  have m2: "py_strip ''a@b.com'' \<noteq> []" by code_simp
  have l2: "last ''a@b.com'' \<noteq> newline" by code_simp
  have r1: "check_author_content [(''name'', YStr ''A''), (''email'', YStr ''not-an-email'')]
              = Inl InvalidEmail" by code_simp
  have r2: "check_author_content [(''name'', YStr ''A''), (''email'', YStr ''a@b.com'')]
              = Inr ()" by code_simp
  have s1: "\<not> email_shape ''not-an-email''"
    using author_email_shape
            [of "[(''name'', YStr ''A''), (''email'', YStr ''not-an-email'')]" "''A''"
                "''not-an-email''", OF _ n p _ m1 l1] r1
    by (simp split: if_splits)
  have s2: "email_shape ''a@b.com''"
    using author_email_shape
            [of "[(''name'', YStr ''A''), (''email'', YStr ''a@b.com'')]" "''A''"
                "''a@b.com''", OF _ n p _ m2 l2] r2
    by (simp split: if_splits)
  from n p m1 l1 m2 l2 r1 r2 s1 s2 show ?thesis by blast
qed

text \<open>
  C7 as stated fails twice. A blank address is a non-empty string without the shape, and
  the failure is the empty-field error of the earlier check. An address with the shape
  followed by a newline does not have the shape, and the check succeeds.
\<close>

theorem email_claim_counterexample:
  "check_author_content [(''name'', YStr ''A''), (''email'', YStr '' '')]
     = Inl (EmptyField ''author.email'')
   \<and> \<not> email_shape '' ''
   \<and> check_author_content [(''name'', YStr ''A''), (''email'', YStr (''a@b.com'' @ [newline]))]
     = Inr ()
   \<and> \<not> email_shape (''a@b.com'' @ [newline])"
proof -
  have a: "check_author_content [(''name'', YStr ''A''), (''email'', YStr '' '')]
             = Inl (EmptyField ''author.email'')" by code_simp
  have b: "\<not> fullmatch email_regex '' ''" by code_simp
  have c: "check_author_content
             [(''name'', YStr ''A''), (''email'', YStr (''a@b.com'' @ [newline]))] = Inr ()"
    by code_simp
  have d: "\<not> fullmatch email_regex (''a@b.com'' @ [newline])" by code_simp
  from b have b': "\<not> email_shape '' ''" unfolding email_regex_shape .
  from d have d': "\<not> email_shape (''a@b.com'' @ [newline])" unfolding email_regex_shape .
  from a b' c d' show ?thesis by blast
qed

section \<open>Entry points\<close>

lemma split_on_undotted: "sep \<notin> set n \<Longrightarrow> split_on sep n = [n]"
  by (induction n) auto

subsection \<open>The scan\<close>



subsection \<open>The search path does not get empty\<close>

lemma run_body_sys_path:
  "sys_path st \<noteq> [] \<Longrightarrow> sys_path (snd (run_body body st)) \<noteq> []"
  by (induction body st rule: run_body.induct) (auto split: prod.splits option.splits)

lemma load_module_sys_path:
  assumes "sys_path st \<noteq> []"
  shows "sys_path (snd (load_module fs st fullname sp)) \<noteq> []"
proof (cases "map_of (builtin_frozen st) fullname \<noteq> None")
  case True
  with assms show ?thesis by (simp add: load_module_def)
next
  case False
  show ?thesis
  proof (cases "origin sp")
    case None
    with False assms show ?thesis by (simp add: load_module_def)
  next
    case (Some module_file)
    show ?thesis
    proof (cases "map_of fs module_file")
      case None
      with False Some assms show ?thesis by (simp add: load_module_def)
    next
      case content: (Some n)
      show ?thesis
      proof (cases n)
        case Dir
        with False Some content assms show ?thesis by (simp add: load_module_def)
      next
        case (File c)
        show ?thesis
        proof (cases "code_of module_file c")
          case (Inl e)
          with False Some content File assms show ?thesis by (simp add: load_module_def)
        next
          case (Inr body)
          let ?st = "st\<lparr>sys_modules := (fullname, Loaded sp) # sys_modules st,
                        executed := executed st @ [module_file]\<rparr>"
          have "sys_path (snd (run_body body ?st)) \<noteq> []"
            using assms by (intro run_body_sys_path) simp
          with False Some content File Inr show ?thesis
            by (auto simp: load_module_def split: prod.splits option.splits)
        qed
      qed
    qed
  qed
qed

lemma import_chain_sys_path:
  "sys_path st \<noteq> [] \<Longrightarrow> sys_path (snd (import_chain fs st cur search cs)) \<noteq> []"
proof (induction cs arbitrary: st cur search)
  case Nil
  then show ?case by simp
next
  case (Cons c cs)
  let ?fullname = "if cur = [] then c else cur @ ''.'' @ c"
  show ?case
  proof (cases "map_of (sys_modules st) ?fullname")
    case (Some l)
    with Cons show ?thesis by (cases l) (simp_all add: Let_def)
  next
    case None
    show ?thesis
    proof (cases search)
      case no_path: None
      with None Cons.prems show ?thesis by (simp add: Let_def)
    next
      case locations: (Some locs)
      show ?thesis
      proof (cases "meta_path_find fs st ?fullname locs c")
        case no_spec: None
        with None locations Cons.prems show ?thesis by (simp add: Let_def)
      next
        case found: (Some sp)
        obtain r st' where l: "load_module fs st ?fullname sp = (r, st')"
          by (cases "load_module fs st ?fullname sp")
        have ne: "sys_path st' \<noteq> []"
          using load_module_sys_path [OF Cons.prems, of fs ?fullname sp] l by simp
        show ?thesis
        proof (cases r)
          case (Inl e)
          with None locations found l ne show ?thesis by (simp add: Let_def)
        next
          case (Inr u)
          with None locations found l Cons.IH [OF ne] show ?thesis by (simp add: Let_def)
        qed
      qed
    qed
  qed
qed

lemma find_spec_sys_path:
  assumes "sys_path st \<noteq> []"
  shows "sys_path (snd (find_spec fs st name)) \<noteq> []"
proof -
  have "sys_path (snd (import_chain fs st [] (Some (sys_path st))
                        (butlast (split_on CHR ''.'' name)))) \<noteq> []"
    using assms by (rule import_chain_sys_path)
  with assms show ?thesis
    by (auto simp: find_spec_def Let_def
             split: option.splits prod.splits sum.splits loaded.splits)
qed

subsection \<open>The check in terms of the resolution\<close>

lemma resolve_and_scan_with_state:
  "snd (resolve_and_scan_with finder fs st module_name attr_name) = snd (finder st module_name)"
  by (auto simp: resolve_and_scan_with_def
           split: option.splits prod.splits sum.splits node.splits file_content.splits)

lemma check_code_entry_point_with_eq:
  assumes "CHR '':'' \<notin> set module_name"
    and "sys_path (snd (finder (with_root st root_path) module_name)) = entry # rest"
  shows "check_code_entry_point_with finder fs st (module_name @ CHR '':'' # attr_name) root_path
           = (fst (resolve_and_scan_with finder fs (with_root st root_path) module_name attr_name),
              (snd (finder (with_root st root_path) module_name))\<lparr>sys_path := rest\<rparr>)"
proof -
  obtain r st2 where rs:
    "resolve_and_scan_with finder fs (with_root st root_path) module_name attr_name = (r, st2)"
    by (cases "resolve_and_scan_with finder fs (with_root st root_path) module_name attr_name")
  have "snd (resolve_and_scan_with finder fs (with_root st root_path) module_name attr_name)
          = snd (finder (with_root st root_path) module_name)"
    by (rule resolve_and_scan_with_state)
  with rs have st2: "st2 = snd (finder (with_root st root_path) module_name)" by simp
  have "check_code_entry_point_with finder fs st (module_name @ CHR '':'' # attr_name) root_path
          = (case sys_path st2 of
               [] \<Rightarrow> (Inl (Runtime PyIndexError), st2)
             | _ # rest \<Rightarrow> (r, st2\<lparr>sys_path := rest\<rparr>))"
    using assms(1) rs
    by (simp add: check_code_entry_point_with_def split_first_colon with_root_def)
  with assms(2) rs st2 show ?thesis by simp
qed

lemma fst_check_code_entry_point_with:
  assumes "CHR '':'' \<notin> set module_name"
    and "sys_path (snd (finder (with_root st root_path) module_name)) \<noteq> []"
  shows "fst (check_code_entry_point_with finder fs st (module_name @ '':'' @ attr_name) root_path)
           = fst (resolve_and_scan_with finder fs (with_root st root_path) module_name attr_name)"
proof -
  from assms(2) obtain entry rest where
    "sys_path (snd (finder (with_root st root_path) module_name)) = entry # rest"
    by (cases "sys_path (snd (finder (with_root st root_path) module_name))") auto
  then have "check_code_entry_point_with finder fs st (module_name @ CHR '':'' # attr_name)
               root_path
          = (fst (resolve_and_scan_with finder fs (with_root st root_path) module_name attr_name),
             (snd (finder (with_root st root_path) module_name))\<lparr>sys_path := rest\<rparr>)"
    using assms(1) by (intro check_code_entry_point_with_eq)
  then show ?thesis by simp
qed

lemma find_spec_with_root_sys_path:
  "sys_path (snd (find_spec fs (with_root st root_path) module_name)) \<noteq> []"
  by (intro find_spec_sys_path) (simp add: with_root_def)

lemma fst_check_code_entry_point:
  assumes "CHR '':'' \<notin> set module_name"
  shows "fst (check_code_entry_point fs st (module_name @ '':'' @ attr_name) root_path)
           = fst (resolve_and_scan fs (with_root st root_path) module_name attr_name)"
  unfolding check_code_entry_point_def resolve_and_scan_def
  using assms find_spec_with_root_sys_path by (rule fst_check_code_entry_point_with)

subsection \<open>The claims on entry points\<close>








subsection \<open>The finders of the interpreter\<close>

lemma first_file_Some_iff: "(\<exists>p. first_file fs ps = Some p) \<longleftrightarrow> (\<exists>p \<in> set ps. is_file fs p)"
  by (induction ps) auto

lemma first_file_None_iff: "first_file fs ps = None \<longleftrightarrow> (\<forall>p \<in> set ps. \<not> is_file fs p)"
  by (induction ps) auto

lemma module_file_in_iff:
  "module_file_in fs sfxs entry name
     \<longleftrightarrow> first_file fs (map (\<lambda>sfx. entry @ [name, ''__init__'' @ sfx]) sfxs) \<noteq> None
         \<or> first_file fs (map (\<lambda>sfx. entry @ [name @ sfx]) sfxs) \<noteq> None"
  unfolding module_file_in_def list_ex_iff first_file_None_iff by auto

lemma path_finder_origin_iff:
  "(\<exists>sp p. path_finder fs sfxs entries name portions = Some sp \<and> origin sp = Some p)
     \<longleftrightarrow> list_ex (\<lambda>entry. module_file_in fs sfxs entry name) entries"
proof (induction entries arbitrary: portions)
  case Nil
  show ?case by simp
next
  case (Cons entry entries)
  show ?case
    using Cons.IH [of portions] Cons.IH [of "portions @ [entry @ [name]]"]
    by (auto simp: module_file_in_iff split: option.splits)
qed

lemma find_spec_undotted:
  assumes "CHR ''.'' \<notin> set name" and "map_of (sys_modules st) name = None"
  shows "find_spec fs st name = (Inr (meta_path_find fs st name (sys_path st) name), st)"
proof -
  from assms(1) have "\<not> prefix ''.'' name" by (cases name) auto
  with assms show ?thesis
    by (simp add: find_spec_def split_on_undotted)
qed

text \<open>
  With the finders of the interpreter as the model has them, for a module name without
  dots that is not loaded yet: a name of a built-in or frozen module is resolved by
  that module, whatever the package root holds; another name fails with the
  module-not-found error exactly when no entry of the search path, the package root
  first, holds a file of the module with one of the suffixes of extension modules, of
  source or of byte code.
\<close>

theorem module_not_found_default_finders:
  assumes "CHR '':'' \<notin> set module_name" and "CHR ''.'' \<notin> set module_name"
    and "map_of (sys_modules st) module_name = None"
  shows "fst (check_code_entry_point fs st (module_name @ '':'' @ attr_name) root_path)
           = Inl ModuleNotFound
         \<longleftrightarrow> (case map_of (builtin_frozen st) module_name of
                Some sp \<Rightarrow> origin sp = None
              | None \<Rightarrow> \<not> list_ex (\<lambda>entry. module_file_in fs (module_suffixes st) entry
                                            module_name)
                               (root_path # sys_path st))"
proof -
  let ?st = "with_root st root_path"
  have found: "find_spec fs ?st module_name
                 = (Inr (meta_path_find fs ?st module_name (sys_path ?st) module_name), ?st)"
    using assms(2,3) by (intro find_spec_undotted) (simp_all add: with_root_def)
  have "fst (resolve_and_scan fs ?st module_name attr_name) = Inl ModuleNotFound
          \<longleftrightarrow> \<not> (\<exists>sp p. meta_path_find fs ?st module_name (sys_path ?st) module_name = Some sp
                       \<and> origin sp = Some p)"
    unfolding resolve_and_scan_def resolve_and_scan_with_def found
    by (auto split: option.splits node.splits file_content.splits)
  also have "\<dots> \<longleftrightarrow> (case map_of (builtin_frozen st) module_name of
                       Some sp \<Rightarrow> origin sp = None
                     | None \<Rightarrow> \<not> list_ex (\<lambda>entry. module_file_in fs (module_suffixes st) entry
                                                   module_name)
                                      (root_path # sys_path st))"
  proof (cases "map_of (builtin_frozen st) module_name")
    case None
    then have "meta_path_find fs ?st module_name (sys_path ?st) module_name
                 = path_finder fs (module_suffixes st) (root_path # sys_path st) module_name []"
      by (simp add: meta_path_find_def with_root_def module_suffixes_def)
    with None show ?thesis
      by (simp only: path_finder_origin_iff option.case)
  next
    case (Some sp)
    then have "meta_path_find fs ?st module_name (sys_path ?st) module_name = Some sp"
      by (simp add: meta_path_find_def with_root_def)
    with Some show ?thesis by auto
  qed
  finally show ?thesis
    by (simp only: fst_check_code_entry_point [OF assms(1)])
qed

theorem module_not_found_default_finders_witness:
  "map_of (builtin_frozen example_interp) ''sys''
     = Some \<lparr>origin = Some [''built-in''], submodule_search_locations = None\<rparr>
   \<and> source_file_in side_effect_fs example_root ''sys''
   \<and> fst (check_code_entry_point side_effect_fs example_interp ''sys:f'' example_root)
       \<noteq> Inl ModuleNotFound
   \<and> map_of (builtin_frozen example_interp) ''native'' = None
   \<and> \<not> source_file_in side_effect_fs example_root ''native''
   \<and> module_file_in side_effect_fs (module_suffixes example_interp) example_root ''native''
   \<and> fst (check_code_entry_point side_effect_fs example_interp ''native:f'' example_root)
       \<noteq> Inl ModuleNotFound"
proof -
  have b1: "map_of (builtin_frozen example_interp) ''sys''
              = Some \<lparr>origin = Some [''built-in''], submodule_search_locations = None\<rparr>"
    by code_simp
  have s1: "source_file_in side_effect_fs example_root ''sys''" by code_simp
  have c1: "CHR '':'' \<notin> set ''sys''" by simp
  have d1: "CHR ''.'' \<notin> set ''sys''" by simp
  have m1: "map_of (sys_modules example_interp) ''sys'' = None" by code_simp
  have r1: "fst (check_code_entry_point side_effect_fs example_interp ''sys:f'' example_root)
              \<noteq> Inl ModuleNotFound"
    using module_not_found_default_finders
            [where ?module_name = "''sys''" and st = example_interp and fs = side_effect_fs
               and attr_name = "''f''" and root_path = example_root, OF c1 d1 m1] b1
    by simp
  have b2: "map_of (builtin_frozen example_interp) ''native'' = None" by code_simp
  have s2: "\<not> source_file_in side_effect_fs example_root ''native''" by code_simp
  have f2: "module_file_in side_effect_fs (module_suffixes example_interp) example_root
              ''native''" by code_simp
  have c2: "CHR '':'' \<notin> set ''native''" by simp
  have d2: "CHR ''.'' \<notin> set ''native''" by simp
  have m2: "map_of (sys_modules example_interp) ''native'' = None" by code_simp
  have r2: "fst (check_code_entry_point side_effect_fs example_interp ''native:f''
                   example_root) \<noteq> Inl ModuleNotFound"
    using module_not_found_default_finders
            [where ?module_name = "''native''" and st = example_interp and fs = side_effect_fs
               and attr_name = "''f''" and root_path = example_root, OF c2 d2 m2] b2 f2
    by simp
  show ?thesis
    by (intro conjI b1 s1 r1 b2 s2 f2 r2)
qed

text \<open>
  What the check makes of such modules: an extension module and a module of byte code
  are found and do not read as text; the built-in module \<^verbatim>\<open>sys\<close> is found in place
  of the file \<^verbatim>\<open>sys.py\<close> of the package, and its origin is no file.
\<close>

theorem modules_without_source:
  "fst (check_code_entry_point side_effect_fs example_interp ''native:f'' example_root)
     = Inl (Runtime PyValueError)
   \<and> fst (check_code_entry_point side_effect_fs example_interp ''cached:f'' example_root)
     = Inl (Runtime PyValueError)
   \<and> fst (check_code_entry_point side_effect_fs example_interp ''sys:f'' example_root)
     = Inl (Runtime PyFileNotFoundError)"
  by code_simp

subsection \<open>Package code\<close>

text \<open>
  C3 fails on the code for a dotted module path. \<^verbatim>\<open>find_spec\<close> imports the parent
  package of \<^verbatim>\<open>sub.mod\<close>, so the file \<^verbatim>\<open>sub/__init__.py\<close> of the package under
  validation is run, although the docstring of \<^verbatim>\<open>_check_code_entry_point\<close> promises
  a check without executing code.
\<close>

theorem dotted_entry_point_runs_package_code:
  "executed example_interp = []
   \<and> fst (check_code_entry_point example_fs example_interp ''sub.mod:thing'' example_root)
       = Inr ()
   \<and> executed (snd (check_code_entry_point example_fs example_interp ''sub.mod:thing''
                       example_root))
       = [example_root @ [''sub'', ''__init__.py'']]"
  by code_simp

theorem dotted_entry_point_runs_package_code_witness:
  "is_file example_fs (example_root @ [''sub'', ''__init__.py''])
   \<and> executed (snd (check_code_entry_point example_fs example_interp ''sub.mod:thing''
                       example_root))
       \<noteq> executed example_interp"
proof -
  have f: "is_file example_fs (example_root @ [''sub'', ''__init__.py''])" by code_simp
  from f show ?thesis
    using dotted_entry_point_runs_package_code by simp
qed

text \<open>
  What the code that is run does reaches the validator. A parent package that puts a
  directory in front of \<^verbatim>\<open>sys.path\<close> makes the \<^verbatim>\<open>finally\<close> clause remove that
  directory: the check succeeds and leaves the package root on the search path. A
  parent package that calls \<^verbatim>\<open>sys.exit\<close> ends the check with that exit.
\<close>

theorem search_path_not_restored:
  "fst (check_code_entry_point side_effect_fs example_interp ''setup.mod:f'' example_root)
     = Inr ()
   \<and> sys_path (snd (check_code_entry_point side_effect_fs example_interp ''setup.mod:f''
                       example_root))
       = example_root # sys_path example_interp
   \<and> fst (check_code_entry_point side_effect_fs example_interp ''boom.mod:f'' example_root)
       = Inl (PackageExit 7)"
  by code_simp

subsection \<open>What the check leaves unchanged\<close>

lemma find_spec_undotted_state:
  assumes "CHR ''.'' \<notin> set name"
  shows "snd (find_spec fs st name) = st"
proof -
  from assms have "\<not> prefix ''.'' name" by (cases name) auto
  with assms show ?thesis
    by (simp add: find_spec_def split_on_undotted split: option.splits loaded.splits)
qed

text \<open>
  The part of C3 that holds for a module path without dots: the check runs no code and
  leaves the interpreter state as it was.
\<close>

theorem undotted_entry_point_keeps_state:
  assumes "CHR '':'' \<notin> set module_name" and "CHR ''.'' \<notin> set module_name"
  shows "snd (check_code_entry_point fs st (module_name @ '':'' @ attr_name) root_path) = st"
proof -
  have same: "snd (find_spec fs (with_root st root_path) module_name) = with_root st root_path"
    using assms(2) by (rule find_spec_undotted_state)
  then have "sys_path (snd (find_spec fs (with_root st root_path) module_name))
               = root_path # sys_path st"
    by (simp add: with_root_def)
  with assms(1)
  have "check_code_entry_point_with (find_spec fs) fs st (module_name @ CHR '':'' # attr_name)
          root_path
          = (fst (resolve_and_scan_with (find_spec fs) fs (with_root st root_path) module_name
                    attr_name),
             (snd (find_spec fs (with_root st root_path) module_name))
               \<lparr>sys_path := sys_path st\<rparr>)"
    by (intro check_code_entry_point_with_eq)
  then have "snd (check_code_entry_point fs st (module_name @ '':'' @ attr_name) root_path)
               = (with_root st root_path)\<lparr>sys_path := sys_path st\<rparr>"
    unfolding same by (simp add: check_code_entry_point_def)
  then show ?thesis by (simp add: with_root_def)
qed

theorem undotted_entry_point_keeps_state_witness:
  "CHR '':'' \<notin> set ''m'' \<and> CHR ''.'' \<notin> set ''m''
   \<and> snd (check_code_entry_point example_fs example_interp ''m:f'' example_root)
       = example_interp"
proof -
  have a: "CHR '':'' \<notin> set ''m''" by simp
  have b: "CHR ''.'' \<notin> set ''m''" by simp
  from a b show ?thesis
    using undotted_entry_point_keeps_state [OF a b, of example_fs example_interp "''f''"
            example_root]
    by simp
qed


section \<open>The pipeline\<close>

lemma first_failure_ok_iff: "first_failure rs = Inr () \<longleftrightarrow> list_all (\<lambda>r. r = Inr ()) rs"
  by (induction rs rule: first_failure.induct) simp_all

lemma first_failure_append:
  "first_failure (rs @ [r]) = (case first_failure rs of Inl e \<Rightarrow> Inl e | Inr _ \<Rightarrow> r)"
proof (induction rs rule: first_failure.induct)
  case 1
  show ?case by (cases r) simp_all
qed simp_all

lemma first_failure_Cons:
  "first_failure (r # rs) = (case r of Inl e \<Rightarrow> Inl e | Inr _ \<Rightarrow> first_failure rs)"
  by (cases r) simp_all

lemma first_failure_single: "first_failure [r] = r"
  by (cases r) simp_all

lemma raised_as_exit:
  "raised_as e = SystemExit code \<Longrightarrow> (e = FileNotFound \<and> code = 1) \<or> e = PackageExit code"
proof (cases e)
  case (Runtime x)
  assume "raised_as e = SystemExit code"
  with Runtime show ?thesis by (cases x) simp_all
qed simp_all

lemma main_failure:
  assumes "fst (run_pipeline parse fs st f root_path tag name) = Inl e"
    and "\<forall>code. e \<noteq> PackageExit code"
  shows "main parse fs st f root_path tag name = 1"
proof (cases "raised_as e")
  case (SystemExit code)
  from raised_as_exit [OF this] assms(2) have "code = 1" by simp
  with assms(1) SystemExit show ?thesis by (simp add: main_def)
qed (use assms(1) in \<open>simp_all add: main_def\<close>)

lemma main_package_exit:
  "fst (run_pipeline parse fs st f root_path tag name) = Inl (PackageExit code)
   \<Longrightarrow> main parse fs st f root_path tag name = code"
  by (simp add: main_def)

lemma main_success: "fst (run_pipeline parse fs st f root_path tag name) = Inr u
                     \<Longrightarrow> main parse fs st f root_path tag name = 0"
  by (simp add: main_def)

lemma main_zero_iff:
  "main parse fs st f root_path tag name = 0
     \<longleftrightarrow> fst (run_pipeline parse fs st f root_path tag name) = Inr ()
         \<or> fst (run_pipeline parse fs st f root_path tag name) = Inl (PackageExit 0)"
proof (cases "fst (run_pipeline parse fs st f root_path tag name)")
  case (Inl e)
  show ?thesis
  proof (cases "\<exists>code. e = PackageExit code")
    case True
    then obtain code where "e = PackageExit code" by blast
    with Inl show ?thesis using main_package_exit [of parse fs st f root_path tag name code]
      by auto
  next
    case False
    then have "main parse fs st f root_path tag name = 1"
      using Inl by (intro main_failure) auto
    with Inl False show ?thesis by auto
  qed
next
  case (Inr u)
  then show ?thesis using main_success [OF Inr] by simp
qed

lemma main_range:
  assumes "\<forall>code. fst (run_pipeline parse fs st f root_path tag name) \<noteq> Inl (PackageExit code)"
  shows "main parse fs st f root_path tag name = 0 \<or> main parse fs st f root_path tag name = 1"
proof (cases "fst (run_pipeline parse fs st f root_path tag name)")
  case (Inl e)
  with assms have "\<forall>code. e \<noteq> PackageExit code" by auto
  with Inl show ?thesis by (simp add: main_failure)
next
  case (Inr u)
  then show ?thesis by (simp add: main_success)
qed

lemma run_pipeline_document:
  "run_pipeline parse fs st (Document (YDict data)) root_path tag name =
     (case validate_schema data of
        Inl e \<Rightarrow> (Inl e, st)
      | Inr _ \<Rightarrow> validate_content parse fs st data root_path tag name)"
  by (simp add: run_pipeline_def load_metadata_def)

lemma run_pipeline_ok_iff:
  "fst (run_pipeline parse fs st f root_path tag name) = Inr () \<longleftrightarrow>
     (\<exists>data. f = Document (YDict data) \<and> validate_schema data = Inr ()
        \<and> fst (validate_content parse fs st data root_path tag name) = Inr ())"
  by (auto simp: run_pipeline_def load_metadata_def
           split: metadata_file.splits yaml.splits sum.splits)

lemma validate_content_first_failure:
  "fst (validate_content parse fs st data root_path tag name)
     = first_failure (content_checks parse fs st data root_path tag name)"
  by (simp add: validate_content_def content_checks_def early_checks_def
        first_failure_Cons first_failure_single split: sum.splits)

lemma validate_content_early_failure:
  "first_failure (early_checks parse data tag name) = Inl e
   \<Longrightarrow> validate_content parse fs st data root_path tag name = (Inl e, st)"
  by (auto simp: validate_content_def early_checks_def first_failure_Cons split: sum.splits)

lemma check_asset_path_ok_iff:
  "check_asset_path fs v root_path = Inr () \<longleftrightarrow>
     (\<exists>s. v = YStr s \<and> s \<noteq> [] \<and> ''..'' \<notin> set (path_parts s)
        \<and> exists fs (path_join root_path (path_parts s)))"
  by (cases v) (auto simp: check_asset_path_def isinstance_def)

lemma check_assets_ok_iff:
  "check_assets fs assets root_path = Inr () \<longleftrightarrow> list_all (asset_ok fs root_path) assets"
proof (induction assets)
  case Nil
  show ?case by simp
next
  case (Cons a assets)
  show ?case
  proof (cases a)
    case (YDict d)
    have "check_asset_path fs (get_default d ''path'' YNull) root_path = Inr ()
            \<longleftrightarrow> asset_ok fs root_path a"
      unfolding check_asset_path_ok_iff asset_ok_def YDict
      by (auto simp: get_default_def split: option.splits)
    with YDict Cons.IH show ?thesis by (auto split: sum.splits)
  qed (simp_all add: asset_ok_def)
qed

lemma check_provides_ok_iff:
  "fst (check_provides fs st provides_data root_path) = Inr ()
     \<longleftrightarrow> provides_ok fs st provides_data root_path"
proof (cases "provides_data = [] \<or> \<not> (has_key provides_data ''code'' \<or> has_key provides_data ''assets'')")
  case True
  then show ?thesis
    by (auto simp: check_provides_def provides_ok_def has_key_def)
next
  case False
  show ?thesis
  proof (cases "map_of provides_data ''assets''")
    case None
    with False show ?thesis
      by (auto simp: check_provides_def provides_ok_def split: option.splits)
  next
    case (Some v)
    show ?thesis
    proof (cases v)
      case (YList assets)
      with False Some show ?thesis
        by (auto simp: check_provides_def provides_ok_def check_assets_ok_iff [symmetric]
                 split: option.splits sum.splits)
    qed (use False Some in \<open>auto simp: check_provides_def provides_ok_def\<close>)
  qed
qed

lemma run_pipeline_package_exit:
  assumes "fst (run_pipeline parse fs st f root_path tag name) = Inl (PackageExit code)"
  shows "\<exists>data. f = Document (YDict data) \<and> validate_schema data = Inr ()
           \<and> fst (validate_content parse fs st data root_path tag name) = Inl (PackageExit code)"
proof (cases f)
  case (Document doc)
  show ?thesis
  proof (cases doc)
    case (YDict data)
    show ?thesis
    proof (cases "validate_schema data")
      case (Inl e)
      have "e \<noteq> PackageExit code"
        using Inl
        by (auto simp: validate_schema_def SCHEMA_def AUTHOR_SCHEMA_def
                 split: sum.splits option.splits yaml.splits if_splits)
      with assms Document YDict Inl show ?thesis by (simp add: run_pipeline_document)
    next
      case (Inr u)
      with assms Document YDict show ?thesis by (simp add: run_pipeline_document)
    qed
  qed (use assms Document in \<open>simp_all add: run_pipeline_def load_metadata_def\<close>)
qed (use assms in \<open>simp_all add: run_pipeline_def load_metadata_def\<close>)

lemma isinstance_dict: "isinstance v TDict \<Longrightarrow> \<exists>d. v = YDict d"
  by (cases v) (simp_all add: isinstance_def)

lemma schema_ok_provides:
  assumes "validate_schema data = Inr ()"
  shows "\<exists>p. map_of data ''provides'' = Some (YDict p)"
proof -
  from assms have ok: "validate_dict_schema data SCHEMA [] = Inr ()"
    by (auto simp: validate_schema_def split: sum.splits)
  then obtain v where v: "map_of data ''provides'' = Some v"
    by (cases "map_of data ''provides''")
       (auto simp: SCHEMA_def split: if_splits option.splits)
  with ok have "isinstance v TDict"
    by (auto simp: SCHEMA_def split: if_splits option.splits)
  with v show ?thesis by (auto dest: isinstance_dict)
qed

lemma provides_step_mapping:
  "map_of data ''provides'' = Some (YDict p)
   \<Longrightarrow> provides_step fs st data root_path = check_provides fs st p root_path"
  by (simp add: provides_step_def get_default_def)

text \<open>
  The part of C8 that holds. Unless package code that the entry point check runs ends
  the process, the exit code is 0 exactly when the metadata file holds a mapping that
  passes schema validation and every content check, and it is 1 otherwise, whatever the
  failure; an exit of package code is the exit code. The first failure ends the run: a
  failure of loading, of the shape test, of either schema pass or of one of the first
  five content checks is the result, with the interpreter state untouched, so the entry
  point check has not run; and the result of the content checks is the first failure in
  their order. The last of them is \<^verbatim>\<open>_check_provides\<close> on the mapping under
  \<^verbatim>\<open>provides\<close>, which succeeds exactly when every declared asset exists and the
  declared entry point resolves.
\<close>

theorem pipeline_first_failure:
  "(main parse fs st f root_path tag name = 0
      \<longleftrightarrow> (\<exists>data. f = Document (YDict data) \<and> validate_schema data = Inr ()
             \<and> (first_failure (content_checks parse fs st data root_path tag name) = Inr ()
                \<or> first_failure (content_checks parse fs st data root_path tag name)
                    = Inl (PackageExit 0))))
   \<and> ((\<forall>code. fst (run_pipeline parse fs st f root_path tag name) \<noteq> Inl (PackageExit code))
        \<longrightarrow> main parse fs st f root_path tag name = 0
            \<or> main parse fs st f root_path tag name = 1)
   \<and> (\<forall>code. fst (run_pipeline parse fs st f root_path tag name) = Inl (PackageExit code)
          \<longrightarrow> main parse fs st f root_path tag name = code)
   \<and> (\<forall>e. load_metadata f = Inl e
          \<longrightarrow> run_pipeline parse fs st f root_path tag name = (Inl e, st))
   \<and> (\<forall>doc. f = Document doc \<and> type_of doc \<noteq> TDict
          \<longrightarrow> run_pipeline parse fs st f root_path tag name = (Inl WrongShape, st))
   \<and> (\<forall>data e. f = Document (YDict data) \<and> validate_dict_schema data SCHEMA [] = Inl e
          \<longrightarrow> run_pipeline parse fs st f root_path tag name = (Inl e, st))
   \<and> (\<forall>data e. f = Document (YDict data) \<and> validate_schema data = Inl e
          \<longrightarrow> run_pipeline parse fs st f root_path tag name = (Inl e, st))
   \<and> (\<forall>data e. f = Document (YDict data) \<and> validate_schema data = Inr ()
             \<and> first_failure (early_checks parse data tag name) = Inl e
          \<longrightarrow> run_pipeline parse fs st f root_path tag name = (Inl e, st))
   \<and> (\<forall>data. f = Document (YDict data) \<and> validate_schema data = Inr ()
          \<longrightarrow> fst (run_pipeline parse fs st f root_path tag name)
                = first_failure (content_checks parse fs st data root_path tag name))
   \<and> (\<forall>data. validate_schema data = Inr ()
          \<longrightarrow> (\<exists>p. map_of data ''provides'' = Some (YDict p)
                 \<and> provides_step fs st data root_path = check_provides fs st p root_path))
   \<and> (\<forall>provides_data.
         fst (check_provides fs st provides_data root_path) = Inr ()
           \<longleftrightarrow> provides_ok fs st provides_data root_path)"
proof (intro conjI allI impI)
  have "fst (run_pipeline parse fs st f root_path tag name) = Inl (PackageExit 0)
          \<longleftrightarrow> (\<exists>data. f = Document (YDict data) \<and> validate_schema data = Inr ()
                 \<and> fst (validate_content parse fs st data root_path tag name)
                     = Inl (PackageExit 0))"
    using run_pipeline_package_exit [of parse fs st f root_path tag name 0]
    by (auto simp: run_pipeline_document)
  then show "main parse fs st f root_path tag name = 0
      \<longleftrightarrow> (\<exists>data. f = Document (YDict data) \<and> validate_schema data = Inr ()
             \<and> (first_failure (content_checks parse fs st data root_path tag name) = Inr ()
                \<or> first_failure (content_checks parse fs st data root_path tag name)
                    = Inl (PackageExit 0)))"
    unfolding main_zero_iff run_pipeline_ok_iff validate_content_first_failure by blast
next
  assume "\<forall>code. fst (run_pipeline parse fs st f root_path tag name) \<noteq> Inl (PackageExit code)"
  then show "main parse fs st f root_path tag name = 0
               \<or> main parse fs st f root_path tag name = 1"
    by (rule main_range)
next
  fix code
  assume "fst (run_pipeline parse fs st f root_path tag name) = Inl (PackageExit code)"
  then show "main parse fs st f root_path tag name = code"
    by (rule main_package_exit)
next
  fix e assume "load_metadata f = Inl e"
  then show "run_pipeline parse fs st f root_path tag name = (Inl e, st)"
    by (simp add: run_pipeline_def)
next
  fix doc assume "f = Document doc \<and> type_of doc \<noteq> TDict"
  then show "run_pipeline parse fs st f root_path tag name = (Inl WrongShape, st)"
    by (cases doc) (simp_all add: run_pipeline_def load_metadata_def)
next
  fix data e assume "f = Document (YDict data) \<and> validate_dict_schema data SCHEMA [] = Inl e"
  then show "run_pipeline parse fs st f root_path tag name = (Inl e, st)"
    by (simp add: run_pipeline_document validate_schema_def)
next
  fix data e assume "f = Document (YDict data) \<and> validate_schema data = Inl e"
  then show "run_pipeline parse fs st f root_path tag name = (Inl e, st)"
    by (simp add: run_pipeline_document)
next
  fix data e
  assume "f = Document (YDict data) \<and> validate_schema data = Inr ()
           \<and> first_failure (early_checks parse data tag name) = Inl e"
  then show "run_pipeline parse fs st f root_path tag name = (Inl e, st)"
    by (simp add: run_pipeline_document validate_content_early_failure)
next
  fix data assume "f = Document (YDict data) \<and> validate_schema data = Inr ()"
  then show "fst (run_pipeline parse fs st f root_path tag name)
                = first_failure (content_checks parse fs st data root_path tag name)"
    by (simp add: run_pipeline_document validate_content_first_failure)
next
  fix data assume "validate_schema data = Inr ()"
  then obtain p where "map_of data ''provides'' = Some (YDict p)"
    using schema_ok_provides by blast
  then show "\<exists>p. map_of data ''provides'' = Some (YDict p)
                 \<and> provides_step fs st data root_path = check_provides fs st p root_path"
    by (simp add: provides_step_mapping)
next
  fix provides_data
  show "fst (check_provides fs st provides_data root_path) = Inr ()
           \<longleftrightarrow> provides_ok fs st provides_data root_path"
    by (rule check_provides_ok_iff)
qed

theorem pipeline_first_failure_witness:
  "main semver_parse example_fs example_interp (Document (YDict example_document))
      example_root None None = 0
   \<and> validate_schema example_document = Inr ()
   \<and> first_failure (content_checks semver_parse example_fs example_interp example_document
                      example_root None None) = Inr ()
   \<and> validate_schema bad_email_document = Inr ()
   \<and> first_failure (early_checks semver_parse bad_email_document None None) = Inl InvalidEmail
   \<and> run_pipeline semver_parse example_fs example_interp (Document (YDict bad_email_document))
        example_root None None = (Inl InvalidEmail, example_interp)
   \<and> main semver_parse example_fs example_interp (Document (YDict bad_email_document))
        example_root None None = 1
   \<and> load_metadata Absent = Inl FileNotFound
   \<and> run_pipeline semver_parse example_fs example_interp Absent example_root None None
        = (Inl FileNotFound, example_interp)
   \<and> type_of (YList []) \<noteq> TDict
   \<and> run_pipeline semver_parse example_fs example_interp (Document (YList [])) example_root
        None None = (Inl WrongShape, example_interp)
   \<and> provides_step example_fs example_interp example_document example_root
        = check_provides example_fs example_interp [(''code'', YStr ''m:f'')] example_root"
proof -
  note good = pipeline_first_failure
             [where parse = semver_parse and fs = example_fs and st = example_interp
                and root_path = example_root and tag = None and name = None
                and f = "Document (YDict example_document)"]
  note bad = pipeline_first_failure
             [where parse = semver_parse and fs = example_fs and st = example_interp
                and root_path = example_root and tag = None and name = None
                and f = "Document (YDict bad_email_document)"]
  note absent = pipeline_first_failure
             [where parse = semver_parse and fs = example_fs and st = example_interp
                and root_path = example_root and tag = None and name = None
                and f = Absent]
  note shape = pipeline_first_failure
             [where parse = semver_parse and fs = example_fs and st = example_interp
                and root_path = example_root and tag = None and name = None
                and f = "Document (YList [])"]
  have s1: "validate_schema example_document = Inr ()" by code_simp
  have c1: "first_failure (content_checks semver_parse example_fs example_interp
                             example_document example_root None None) = Inr ()"
    by code_simp
  have m1: "main semver_parse example_fs example_interp (Document (YDict example_document))
      example_root None None = 0"
    unfolding good [THEN conjunct1] using s1 c1 by simp
  have s2: "validate_schema bad_email_document = Inr ()" by code_simp
  have c2: "first_failure (early_checks semver_parse bad_email_document None None)
              = Inl InvalidEmail" by code_simp
  have r2: "run_pipeline semver_parse example_fs example_interp
              (Document (YDict bad_email_document)) example_root None None
              = (Inl InvalidEmail, example_interp)"
    using bad [THEN conjunct2, THEN conjunct2, THEN conjunct2, THEN conjunct2, THEN conjunct2,
               THEN conjunct2, THEN conjunct2, THEN conjunct1, rule_format,
               of bad_email_document InvalidEmail]
          s2 c2
    by simp
  have m2: "main semver_parse example_fs example_interp (Document (YDict bad_email_document))
        example_root None None = 1"
    by code_simp
  have l3: "load_metadata Absent = Inl FileNotFound" by (simp add: load_metadata_def)
  have r3: "run_pipeline semver_parse example_fs example_interp Absent example_root None None
        = (Inl FileNotFound, example_interp)"
    using absent [THEN conjunct2, THEN conjunct2, THEN conjunct2, THEN conjunct1, rule_format,
                  of FileNotFound]
          l3
    by simp
  have t4: "type_of (YList []) \<noteq> TDict" by simp
  have r4: "run_pipeline semver_parse example_fs example_interp (Document (YList []))
              example_root None None = (Inl WrongShape, example_interp)"
    using shape [THEN conjunct2, THEN conjunct2, THEN conjunct2, THEN conjunct2,
                 THEN conjunct1, rule_format, of "YList []"]
    by simp
  have p5: "provides_step example_fs example_interp example_document example_root
        = check_provides example_fs example_interp [(''code'', YStr ''m:f'')] example_root"
    by code_simp
  show ?thesis
    by (intro conjI m1 s1 c1 s2 c2 r2 m2 l3 r3 t4 r4 p5)
qed

text \<open>
  C8 fails on the code, by the defect of C3. The entry point \<^verbatim>\<open>boom.mod:f\<close> makes
  \<^verbatim>\<open>find_spec\<close> import the package \<^verbatim>\<open>boom\<close>, whose \<^verbatim>\<open>__init__.py\<close> calls
  \<^verbatim>\<open>sys.exit(7)\<close>; no \<^verbatim>\<open>except\<close> clause of \<^verbatim>\<open>main\<close> catches the exit, and the
  exit code of the run is 7, neither 0 nor 1. With \<^verbatim>\<open>quiet.mod:f\<close>, whose parent
  package calls \<^verbatim>\<open>sys.exit(0)\<close>, the exit code is 0 although the entry point check
  has not succeeded and the module defines no \<^verbatim>\<open>f\<close>.
\<close>

theorem package_exit_is_exit_code:
  "validate_schema (package_document ''boom.mod:f'') = Inr ()
   \<and> first_failure (early_checks semver_parse (package_document ''boom.mod:f'') None None)
       = Inr ()
   \<and> fst (run_pipeline semver_parse side_effect_fs example_interp
            (Document (YDict (package_document ''boom.mod:f''))) example_root None None)
       = Inl (PackageExit 7)
   \<and> main semver_parse side_effect_fs example_interp
        (Document (YDict (package_document ''boom.mod:f''))) example_root None None = 7
   \<and> fst (run_pipeline semver_parse side_effect_fs example_interp
            (Document (YDict (package_document ''quiet.mod:f''))) example_root None None)
       = Inl (PackageExit 0)
   \<and> main semver_parse side_effect_fs example_interp
        (Document (YDict (package_document ''quiet.mod:f''))) example_root None None = 0"
  by code_simp

theorem package_exit_is_exit_code_witness:
  "executed (snd (run_pipeline semver_parse side_effect_fs example_interp
                    (Document (YDict (package_document ''boom.mod:f''))) example_root
                    None None))
     = [example_root @ [''boom'', ''__init__.py'']]
   \<and> main semver_parse side_effect_fs example_interp
        (Document (YDict (package_document ''boom.mod:f''))) example_root None None \<noteq> 0
   \<and> main semver_parse side_effect_fs example_interp
        (Document (YDict (package_document ''boom.mod:f''))) example_root None None \<noteq> 1
   \<and> \<not> top_level_defines [OtherStmt] ''f''
   \<and> first_failure (content_checks semver_parse side_effect_fs example_interp
                      (package_document ''quiet.mod:f'') example_root None None) \<noteq> Inr ()
   \<and> main semver_parse side_effect_fs example_interp
        (Document (YDict (package_document ''quiet.mod:f''))) example_root None None = 0"
proof -
  have e: "executed (snd (run_pipeline semver_parse side_effect_fs example_interp
                    (Document (YDict (package_document ''boom.mod:f''))) example_root
                    None None))
     = [example_root @ [''boom'', ''__init__.py'']]"
    by code_simp
  have d: "\<not> top_level_defines [OtherStmt] ''f''" by code_simp
  have c: "first_failure (content_checks semver_parse side_effect_fs example_interp
                      (package_document ''quiet.mod:f'') example_root None None) \<noteq> Inr ()"
    by code_simp
  from e d c show ?thesis
    using package_exit_is_exit_code by simp
qed



end
